theory Spec2Isabelle
  imports Complex_Main "HOL-Library.AList"
begin

section \<open>Python values used by the services\<close>

text \<open>
  Timestamps are the seconds returned by \<^verbatim>\<open>time.time()\<close>, modelled as real numbers.
  A Python \<^verbatim>\<open>dict\<close> keeps its keys unique and in insertion order; it is an association
  list: \<^const>\<open>map_of\<close> reads a key, \<^const>\<open>AList.update\<close> stores one (in place when the
  key exists, at the end otherwise) and \<^const>\<open>AList.delete\<close> removes one.
\<close>

datatype json =
    JNull
  | JBool bool
  | JNum real
  | JStr string
  | JList "json list"
  | JObj "(string \<times> json) list"

text \<open>An exception carries the text that \<^verbatim>\<open>str(e)\<close> gives.\<close>

datatype exn = Exn string

text \<open>Truthiness of an optional string: \<^verbatim>\<open>None\<close> and \<^verbatim>\<open>""\<close> are false.\<close>

fun truthy :: "string option \<Rightarrow> bool" where
  "truthy None = False"
| "truthy (Some s) = (s \<noteq> [])"

section \<open>The OAuth flow orchestrator (services/auth\_service.py)\<close>

text \<open>
  One entry of \<^verbatim>\<open>AuthService.auth_flows\<close>. The listener is an opaque handle; the
  \<^verbatim>\<open>flow\<close> object and the listener's thread are not read by the operations below
  other than through the collaborators that take them, and are left out.
\<close>

record flow_data =
  project_id :: "string option"
  user_session :: "string option"
  callback_port :: nat
  callback_url :: string
  server :: "nat option"
  code :: "string option"
  completed :: bool
  created_at :: real
  auto_project_detection :: bool
  get_all_projects :: bool

text \<open>
  What the service does to listeners and to its flow map, in the order it does it:
  a call of \<^verbatim>\<open>server.shutdown()\<close> that returns, a call of \<^verbatim>\<open>server.shutdown()\<close> that
  raises, a call of \<^verbatim>\<open>server.server_close()\<close>, and a record leaving \<^verbatim>\<open>auth_flows\<close>
  (by \<^verbatim>\<open>del\<close> or by the map being replaced).
\<close>

datatype event = ServerShutdown nat | ShutdownRaised nat | ServerClose nat | FlowRemoved string

record auth_service =
  auth_flows :: "(string \<times> flow_data) list"
  trace :: "event list"

text \<open>
  \<^verbatim>\<open>
  def handle_callback(self, state, code):
      if state in self.auth_flows:
          self.auth_flows[state]["code"] = code
          self.auth_flows[state]["completed"] = True
          return True
      return False
  \<close>
\<close>

definition handle_callback :: "auth_service \<Rightarrow> string \<Rightarrow> string \<Rightarrow> bool \<times> auth_service" where
  "handle_callback st state c =
     (case map_of (auth_flows st) state of
        Some fd \<Rightarrow>
          (True, st\<lparr>auth_flows :=
             AList.update state (fd\<lparr>code := Some c, completed := True\<rparr>) (auth_flows st)\<rparr>)
      | None \<Rightarrow> (False, st))"

text \<open>
  \<^verbatim>\<open>
  def _shutdown_flow_server(self, state):
      flow_data = self.auth_flows.get(state)
      if flow_data and flow_data.get("server"):
          try:
              server = flow_data["server"]
              server.shutdown()
              server.server_close()
          except Exception as e:
              pass
  \<close>
  The calls on the listener are recorded in the trace. \<open>raises srv\<close> says that
  \<^verbatim>\<open>shutdown()\<close> of the listener \<open>srv\<close> raises: the \<^verbatim>\<open>except\<close> branch swallows the
  exception, and \<^verbatim>\<open>server_close()\<close> is not called. \<^verbatim>\<open>server_close()\<close> is the last
  statement of the \<^verbatim>\<open>try\<close>, so an exception of its own is swallowed with nothing left
  to skip.
\<close>

definition shutdown_flow_server :: "(nat \<Rightarrow> bool) \<Rightarrow> auth_service \<Rightarrow> string \<Rightarrow> auth_service" where
  "shutdown_flow_server raises st state =
     (case map_of (auth_flows st) state of
        None \<Rightarrow> st
      | Some fd \<Rightarrow>
          (case server fd of
             None \<Rightarrow> st
           | Some srv \<Rightarrow>
               if raises srv then st\<lparr>trace := trace st @ [ShutdownRaised srv]\<rparr>
               else st\<lparr>trace := trace st @ [ServerShutdown srv, ServerClose srv]\<rparr>))"

text \<open>
  \<^verbatim>\<open>del self.auth_flows[state]\<close>. Both callers take the state from the map itself, so
  the key is there and the statement does not raise.
\<close>

definition del_flow :: "auth_service \<Rightarrow> string \<Rightarrow> auth_service" where
  "del_flow st state =
     st\<lparr>auth_flows := AList.delete state (auth_flows st),
        trace := trace st @ [FlowRemoved state]\<rparr>"

text \<open>
  \<^verbatim>\<open>
  def cleanup_auth_flows(self):
      now = time.time()
      expired = [state for state, data in self.auth_flows.items()
                 if now - data.get("created_at", 0) > 1800]
      for state in expired:
          self._shutdown_flow_server(state)
          del self.auth_flows[state]
      if len(self.auth_flows) > 10:
           sorted_flows = sorted(self.auth_flows.items(),
                                 key=lambda x: x[1].get("created_at", 0), reverse=True)
           new_auth_flows = dict(sorted_flows[:10])
           for state, flow_data in self.auth_flows.items():
               if state not in new_auth_flows:
                   self._shutdown_flow_server(state)
           self.auth_flows = new_auth_flows
  \<close>
  Python's \<^verbatim>\<open>sorted(..., reverse=True)\<close> is stable: it reverses the list, sorts it
  ascending with a stable sort and reverses the result.
\<close>

definition expired :: "(string \<times> flow_data) list \<Rightarrow> real \<Rightarrow> string list" where
  "expired flows now = map fst (filter (\<lambda>x. now - created_at (snd x) > 1800) flows)"

definition sorted_flows :: "(string \<times> flow_data) list \<Rightarrow> (string \<times> flow_data) list" where
  "sorted_flows flows = rev (sort_key (\<lambda>x. created_at (snd x)) (rev flows))"

definition cleanup_auth_flows :: "(nat \<Rightarrow> bool) \<Rightarrow> auth_service \<Rightarrow> real \<Rightarrow> auth_service" where
  "cleanup_auth_flows raises st now =
     (let st1 = fold (\<lambda>state st. del_flow (shutdown_flow_server raises st state) state)
                  (expired (auth_flows st) now) st
      in if length (auth_flows st1) > 10 then
           (let new_auth_flows = take 10 (sorted_flows (auth_flows st1));
                st2 = fold (\<lambda>x st. if fst x \<notin> fst ` set new_auth_flows
                                     then shutdown_flow_server raises st (fst x) else st)
                        (auth_flows st1) st1
            in st2\<lparr>auth_flows := new_auth_flows,
                   trace := trace st2 @
                     map FlowRemoved
                       (filter (\<lambda>s. s \<notin> fst ` set new_auth_flows) (map fst (auth_flows st1)))\<rparr>)
         else st1)"

text \<open>
  The registration step of \<^verbatim>\<open>create_auth_url\<close>, after the port was found, the listener
  started, the state token drawn and the authorisation URL built (all taken as given):
  \<^verbatim>\<open>
      if len(self.auth_flows) >= MAX_AUTH_FLOWS:      # MAX_AUTH_FLOWS = 20
          self.cleanup_auth_flows()
      self.auth_flows[state] = {... "project_id": project_id, "user_session": user_session,
          "callback_port": callback_port, "callback_url": callback_url,
          "server": callback_server, "code": None, "completed": False,
          "created_at": time.time(), "auto_project_detection": project_id is None,
          "get_all_projects": get_all_projects}
  \<close>
\<close>

definition MAX_AUTH_FLOWS :: nat where
  "MAX_AUTH_FLOWS = 20"

definition register_flow ::
  "(nat \<Rightarrow> bool) \<Rightarrow> auth_service \<Rightarrow> real \<Rightarrow> real \<Rightarrow> string \<Rightarrow> string option \<Rightarrow> string option \<Rightarrow> bool \<Rightarrow>
   nat \<Rightarrow> string \<Rightarrow> nat \<Rightarrow> auth_service" where
  "register_flow raises st now_cleanup now_created state pid us all_projects port url srv =
     (let st1 = (if length (auth_flows st) \<ge> MAX_AUTH_FLOWS
                 then cleanup_auth_flows raises st now_cleanup else st)
      in st1\<lparr>auth_flows := AList.update state
           \<lparr>project_id = pid, user_session = us, callback_port = port, callback_url = url,
            server = Some srv, code = None, completed = False, created_at = now_created,
            auto_project_detection = (pid = None), get_all_projects = all_projects\<rparr>
           (auth_flows st1)\<rparr>)"

text \<open>
  \<^verbatim>\<open>get_auth_flow\<close>: two passes over the map, each returning at once on a record of the
  caller's session and remembering the first other match.
  \<^verbatim>\<open>
      for s, data in self.auth_flows.items():
          if <match>(data):
              if user_session and data.get("user_session") == user_session:
                  return s, data
              elif not state:
                  state = s
                  flow_data = data
  \<close>
  \<open>Inl\<close> is the early return, \<open>Inr\<close> the pair of variables after the loop.
\<close>

fun scan_flows ::
  "(flow_data \<Rightarrow> bool) \<Rightarrow> string option \<Rightarrow> (string \<times> flow_data) list \<Rightarrow>
   string option \<times> flow_data option \<Rightarrow>
   (string \<times> flow_data) + (string option \<times> flow_data option)" where
  "scan_flows p us [] acc = Inr acc"
| "scan_flows p us ((s, d) # rest) acc =
     (if p d then
        (if truthy us \<and> user_session d = us then Inl (s, d)
         else if \<not> truthy (fst acc) then scan_flows p us rest (Some s, Some d)
         else scan_flows p us rest acc)
      else scan_flows p us rest acc)"

definition get_auth_flow ::
  "auth_service \<Rightarrow> string option \<Rightarrow> string option \<Rightarrow> string option \<times> flow_data option" where
  "get_auth_flow st pid us =
     (case (if truthy pid
            then scan_flows (\<lambda>d. project_id d = pid) us (auth_flows st) (None, None)
            else Inr (None, None)) of
        Inl (s, d) \<Rightarrow> (Some s, Some d)
      | Inr (state, fdata) \<Rightarrow>
          if \<not> truthy state then
            (case scan_flows auto_project_detection us (auth_flows st) (state, fdata) of
               Inl (s, d) \<Rightarrow> (Some s, Some d)
             | Inr r \<Rightarrow> r)
          else (state, fdata))"

text \<open>
  The collaborators of \<^verbatim>\<open>complete_auth_flow\<close> that are not part of this service: the
  OAuth client (\<^verbatim>\<open>flow.exchange_code\<close>), the project API of
  \<^verbatim>\<open>src.google_oauth_api\<close>, the configuration, the storage adapter and the listeners
  (\<open>shutdown_raises\<close>: whose \<^verbatim>\<open>shutdown()\<close> raises). A call that raises is \<open>Inl\<close>. A
  project is the dictionary the project API returns.
\<close>

record datetime =
  naive_iso :: string
  tzinfo :: "string option"

definition isoformat :: "datetime \<Rightarrow> string" where
  "isoformat dt = naive_iso dt @ (case tzinfo dt of None \<Rightarrow> [] | Some z \<Rightarrow> z)"

record credentials =
  access_token :: string
  refresh_token :: "string option"
  expires_at :: "datetime option"

type_synonym project = "(string \<times> string) list"

record oauth_env =
  exchange_code :: "string \<Rightarrow> exn + credentials"
  get_user_projects :: "credentials \<Rightarrow> exn + project list"
  select_default_project :: "project list \<Rightarrow> exn + string option"
  enable_required_apis :: "credentials \<Rightarrow> string \<Rightarrow> exn option"
  oauth_client_id :: string
  oauth_client_secret :: string
  adapter_store_credential :: "string \<Rightarrow> json \<Rightarrow> exn + bool"
  str_of_int :: "int \<Rightarrow> string"
  shutdown_raises :: "nat \<Rightarrow> bool"

definition SCOPES :: "string list" where
  "SCOPES = [''https://www.googleapis.com/auth/cloud-platform'',
             ''https://www.googleapis.com/auth/userinfo.email'',
             ''https://www.googleapis.com/auth/userinfo.profile'']"

definition json_opt :: "string option \<Rightarrow> json" where
  "json_opt x = (case x of None \<Rightarrow> JNull | Some s \<Rightarrow> JStr s)"

text \<open>
  \<^verbatim>\<open>save_credentials\<close>: the file name is \<^verbatim>\<open>f"{project_id}-{int(time.time())}.json"\<close>.
  When the adapter reports failure the function raises (the message is a Chinese
  sentence followed by the file name). After a successful store it writes a default
  state through the adapter inside a \<^verbatim>\<open>try\<close> that swallows every exception; that call
  changes nothing in this service. Reading the client id and secret from the
  configuration and obtaining the adapter are taken to succeed.
\<close>

definition save_credentials :: "oauth_env \<Rightarrow> real \<Rightarrow> credentials \<Rightarrow> string \<Rightarrow> exn + string" where
  "save_credentials env now creds pid =
     (let filename = pid @ ''-'' @ str_of_int env \<lfloor>now\<rfloor> @ ''.json'';
          creds_data = JObj
            ([(''client_id'', JStr (oauth_client_id env)),
              (''client_secret'', JStr (oauth_client_secret env)),
              (''token'', JStr (access_token creds)),
              (''refresh_token'', json_opt (refresh_token creds)),
              (''scopes'', JList (map JStr SCOPES)),
              (''token_uri'', JStr ''https://oauth2.googleapis.com/token''),
              (''project_id'', JStr pid)] @
             (case expires_at creds of
                None \<Rightarrow> []
              | Some dt \<Rightarrow>
                  [(''expiry'', JStr (isoformat
                     (if tzinfo dt = None then dt\<lparr>tzinfo := Some ''+00:00''\<rparr> else dt)))]))
      in case adapter_store_credential env filename creds_data of
           Inl e \<Rightarrow> Inl e
         | Inr success \<Rightarrow>
             if success then Inr filename
             else Inl (Exn (''save failed: '' @ filename)))"

text \<open>
  The result dictionaries of \<^verbatim>\<open>complete_auth_flow\<close>:
  \<^item> \<open>Failure e\<close> is \<^verbatim>\<open>{"success": False, "error": <text of e>}\<close>;
  \<^item> \<open>SelectionRequired ps\<close> is \<^verbatim>\<open>{"success": False, "error": "Multiple projects found",
    "requires_project_selection": True, "available_projects": ps}\<close>;
  \<^item> \<open>Success token pid expiry file\<close> is \<^verbatim>\<open>{"success": True, "credentials": {"token": token,
    "project_id": pid, "expires_at": expiry}, "file_path": file}\<close>.
\<close>

datatype flow_error =
    FlowNotFound
  | MissingProjectId
  | CallbackTimeout
  | NoProjectsFound
  | Raised exn

fun error_text :: "flow_error \<Rightarrow> string" where
  "error_text FlowNotFound = ''auth flow not found''"
| "error_text MissingProjectId = ''Missing Project ID''"
| "error_text CallbackTimeout = ''Callback timeout''"
| "error_text NoProjectsFound = ''No projects found''"
| "error_text (Raised (Exn msg)) = msg"

datatype flow_result =
    Failure flow_error
  | SelectionRequired "project list"
  | Success string string "string option" string

text \<open>
  The wait for the redirect:
  \<^verbatim>\<open>
      start_time = time.time()
      while time.time() - start_time < 300:
          if flow_data.get("code"):
              break
          await asyncio.sleep(0.5)
  \<close>
  The listener's thread stores the code on the record while this coroutine sleeps:
  \<open>cb t\<close> is the code that the record holds at time \<open>t\<close>. One sleep takes \<open>dt\<close>
  seconds and never less than the half second asked for. The function returns the time
  at which the loop is left.
\<close>

function wait_for_code :: "(real \<Rightarrow> string option) \<Rightarrow> real \<Rightarrow> real \<Rightarrow> real \<Rightarrow> real" where
  "wait_for_code cb dt start t =
     (if t - start < 300 then
        (if truthy (cb t) then t else wait_for_code cb dt start (t + max (1/2) dt))
      else t)"
  by pat_completeness auto
termination
proof (relation "measure (\<lambda>(cb, dt, start, t). nat \<lceil>(300 - (t - start)) * 2\<rceil>)")
  show "wf (measure (\<lambda>(cb, dt, start, t). nat \<lceil>(300 - (t - start)) * 2\<rceil>))"
    by simp
next
  fix cb :: "real \<Rightarrow> string option" and dt start t :: real
  assume running: "t - start < 300"
  let ?step = "max (1/2) dt"
  have "(300 - (t + ?step - start)) * 2 \<le> (300 - (t - start)) * 2 - 1"
    by simp
  then have "\<lceil>(300 - (t + ?step - start)) * 2\<rceil> \<le> \<lceil>(300 - (t - start)) * 2 - 1\<rceil>"
    by (rule ceiling_mono)
  also have "\<dots> = \<lceil>(300 - (t - start)) * 2\<rceil> - 1"
    by (rule ceiling_diff_one)
  finally have less: "\<lceil>(300 - (t + ?step - start)) * 2\<rceil> \<le> \<lceil>(300 - (t - start)) * 2\<rceil> - 1" .
  from running have "0 < (300 - (t - start)) * 2"
    by simp
  then have pos: "0 < \<lceil>(300 - (t - start)) * 2\<rceil>"
    by simp
  from less pos show "((cb, dt, start, t + ?step), (cb, dt, start, t))
      \<in> measure (\<lambda>(cb, dt, start, t). nat \<lceil>(300 - (t - start)) * 2\<rceil>)"
    by simp
qed

declare wait_for_code.simps [simp del]

text \<open>
  The project of the new credential:
  \<^verbatim>\<open>
      if flow_data.get("auto_project_detection") and not project_id:
          user_projects = await get_user_projects(credentials)
          if not user_projects:
              return {"success": False, "error": "No projects found"}
          if len(user_projects) == 1:
              project_id = user_projects[0].get("projectId")
          else:
              project_id = await select_default_project(user_projects)
              if not project_id:
                   return {"success": False, "error": "Multiple projects found",
                           "requires_project_selection": True,
                           "available_projects": user_projects}
  \<close>
  \<open>Inl\<close> is a return from \<^verbatim>\<open>complete_auth_flow\<close>, \<open>Inr\<close> the value of
  \<^verbatim>\<open>project_id\<close> after the block.
\<close>

definition detect_project ::
  "oauth_env \<Rightarrow> flow_data \<Rightarrow> string option \<Rightarrow> credentials \<Rightarrow> flow_result + string option" where
  "detect_project env fd pid creds =
     (if auto_project_detection fd \<and> \<not> truthy pid then
        (case get_user_projects env creds of
           Inl e \<Rightarrow> Inl (Failure (Raised e))
         | Inr user_projects \<Rightarrow>
             (case user_projects of
                [] \<Rightarrow> Inl (Failure NoProjectsFound)
              | [p] \<Rightarrow> Inr (map_of p ''projectId'')
              | _ \<Rightarrow>
                  (case select_default_project env user_projects of
                     Inl e \<Rightarrow> Inl (Failure (Raised e))
                   | Inr chosen \<Rightarrow>
                       if \<not> truthy chosen then Inl (SelectionRequired user_projects)
                       else Inr chosen)))
      else Inr pid)"

text \<open>
  The rest of the \<^verbatim>\<open>try\<close> block, from the check of the project id to the removal of
  the flow:
  \<^verbatim>\<open>
      if not project_id:
          return {"success": False, "error": "Missing Project ID"}
      await enable_required_apis(credentials, project_id)
      saved_filename = await self.save_credentials(credentials, project_id)
      creds_data = {...}
      self._shutdown_flow_server(state)
      del self.auth_flows[state]
      return {"success": True, "credentials": creds_data, "file_path": saved_filename}
  \<close>
\<close>

definition finish_flow ::
  "oauth_env \<Rightarrow> real \<Rightarrow> auth_service \<Rightarrow> string \<Rightarrow> credentials \<Rightarrow> string option \<Rightarrow>
   flow_result \<times> auth_service" where
  "finish_flow env now st state creds pid =
     (case pid of
        None \<Rightarrow> (Failure MissingProjectId, st)
      | Some p \<Rightarrow>
          if p = [] then (Failure MissingProjectId, st)
          else
            (case enable_required_apis env creds p of
               Some e \<Rightarrow> (Failure (Raised e), st)
             | None \<Rightarrow>
                 (case save_credentials env now creds p of
                    Inl e \<Rightarrow> (Failure (Raised e), st)
                  | Inr saved_filename \<Rightarrow>
                      (Success (access_token creds) p
                         (map_option isoformat (expires_at creds)) saved_filename,
                       del_flow (shutdown_flow_server (shutdown_raises env) st state) state))))"

text \<open>
  \<^verbatim>\<open>complete_auth_flow(project_id, user_session)\<close>. \<open>start\<close> is the time at which the
  wait begins and \<open>now\<close> the time at which the credential is saved. A code that
  arrives during the wait has been stored on the record by \<^verbatim>\<open>handle_callback\<close>:
  \<open>await_code\<close> gives the code read after the wait and the service as the listener's
  thread left it. Every exception is caught and returned as a failure carrying its text.
\<close>

definition await_code ::
  "auth_service \<Rightarrow> string \<Rightarrow> flow_data \<Rightarrow> (real \<Rightarrow> string option) \<Rightarrow> real \<Rightarrow> real \<Rightarrow>
   string option \<times> auth_service" where
  "await_code st state fd cb dt start =
     (if truthy (code fd) then (code fd, st)
      else
        let arrived = cb (wait_for_code cb dt start start)
        in (arrived,
            case arrived of
              None \<Rightarrow> st
            | Some c \<Rightarrow> snd (handle_callback st state c)))"

definition complete_auth_flow ::
  "oauth_env \<Rightarrow> (real \<Rightarrow> string option) \<Rightarrow> real \<Rightarrow> real \<Rightarrow> real \<Rightarrow> auth_service \<Rightarrow>
   string option \<Rightarrow> string option \<Rightarrow> flow_result \<times> auth_service" where
  "complete_auth_flow env cb dt start now st pid0 us =
     (case get_auth_flow st pid0 us of
        (Some state, Some fd) \<Rightarrow>
          if state = [] then (Failure FlowNotFound, st)
          else
            let pid = (if \<not> truthy pid0 \<and> \<not> auto_project_detection fd
                       then project_id fd else pid0)
            in if \<not> truthy pid0 \<and> \<not> auto_project_detection fd \<and> \<not> truthy pid
               then (Failure MissingProjectId, st)
               else
                 (case await_code st state fd cb dt start of
                    (None, st1) \<Rightarrow> (Failure CallbackTimeout, st1)
                  | (Some auth_code, st1) \<Rightarrow>
                      if auth_code = [] then (Failure CallbackTimeout, st1)
                      else
                        (case exchange_code env auth_code of
                           Inl e \<Rightarrow> (Failure (Raised e), st1)
                         | Inr creds \<Rightarrow>
                             (case detect_project env fd pid creds of
                                Inl r \<Rightarrow> (r, st1)
                              | Inr pid' \<Rightarrow> finish_flow env now st1 state creds pid')))
      | _ \<Rightarrow> (Failure FlowNotFound, st))"

section \<open>The credential store (storage/mysql\_manager.py)\<close>

text \<open>
  Modelled from the spec: the class \<^verbatim>\<open>UnifiedCacheManager\<close> of
  \<^verbatim>\<open>storage/cache_manager.py\<close>, which is not among the sources. The spec (4.1) says:
  \<^verbatim>\<open>get(key, default)\<close> returns the in-memory value or \<^verbatim>\<open>default\<close> and never touches
  the store; \<^verbatim>\<open>set(key, value)\<close> updates memory immediately, marks the table dirty and
  returns success; \<^verbatim>\<open>delete(key)\<close> removes from memory and marks dirty; \<^verbatim>\<open>getAll()\<close>
  returns a snapshot copy of the full map.
\<close>

record unified_cache =
  cache_data :: "(string \<times> json) list"
  dirty :: bool

definition cache_get :: "unified_cache \<Rightarrow> string \<Rightarrow> json \<Rightarrow> json" where
  "cache_get c k dflt = (case map_of (cache_data c) k of None \<Rightarrow> dflt | Some v \<Rightarrow> v)"

definition cache_set :: "unified_cache \<Rightarrow> string \<Rightarrow> json \<Rightarrow> bool \<times> unified_cache" where
  "cache_set c k v = (True, c\<lparr>cache_data := AList.update k v (cache_data c), dirty := True\<rparr>)"

definition cache_delete :: "unified_cache \<Rightarrow> string \<Rightarrow> bool \<times> unified_cache" where
  "cache_delete c k = (True, c\<lparr>cache_data := AList.delete k (cache_data c), dirty := True\<rparr>)"

definition cache_get_all :: "unified_cache \<Rightarrow> (string \<times> json) list" where
  "cache_get_all c = cache_data c"

text \<open>
  The part of \<^verbatim>\<open>MySQLManager\<close> that the credential operations read and write. The cache
  manager is \<^verbatim>\<open>None\<close> until \<^verbatim>\<open>initialize()\<close> has run; \<^verbatim>\<open>_operation_times\<close> is a
  \<^verbatim>\<open>deque(maxlen=5000)\<close>.
\<close>

record mysql_manager =
  initialized :: bool
  credentials_cache_manager :: "unified_cache option"
  operation_count :: nat
  operation_times :: "real list"

definition deque_append :: "real list \<Rightarrow> real \<Rightarrow> real list" where
  "deque_append xs x = drop (length (xs @ [x]) - 5000) (xs @ [x])"

text \<open>\<^verbatim>\<open>_ensure_initialized\<close> raises \<^verbatim>\<open>RuntimeError("MySQL manager not initialized")\<close>.\<close>

definition not_initialized :: exn where
  "not_initialized = Exn ''MySQL manager not initialized''"

text \<open>
  \<^verbatim>\<open>
  def _get_default_state(self):
      return {"error_codes": [], "disabled": False,
              "last_success": time.time(), "user_email": None}
  def _get_default_stats(self):
      return {"call_timestamps": []}
  \<close>
\<close>

definition get_default_state :: "real \<Rightarrow> json" where
  "get_default_state now =
     JObj [(''error_codes'', JList []), (''disabled'', JBool False),
           (''last_success'', JNum now), (''user_email'', JNull)]"

definition get_default_stats :: json where
  "get_default_stats = JObj [(''call_timestamps'', JList [])]"

text \<open>\<^verbatim>\<open>d.get(key, default)\<close> on a dictionary.\<close>

definition dict_get :: "(string \<times> json) list \<Rightarrow> string \<Rightarrow> json \<Rightarrow> json" where
  "dict_get d k dflt = (case map_of d k of None \<Rightarrow> dflt | Some v \<Rightarrow> v)"

text \<open>
  \<^verbatim>\<open>
  async def store_credential(self, filename, credential_data):
      self._ensure_initialized()
      start_time = time.time()
      try:
          existing_data = await self._credentials_cache_manager.get(filename, {})
          credential_entry = {
              "credential": credential_data,
              "state": existing_data.get("state", self._get_default_state()),
              "stats": existing_data.get("stats", self._get_default_stats()),
          }
          success = await self._credentials_cache_manager.set(filename, credential_entry)
          self._operation_count += 1
          self._operation_times.append(time.time() - start_time)
          return success
      except Exception as e:
          return False
  \<close>
  The clock is read three times: \<open>t0\<close> at the start, \<open>t1\<close> for the default state (the
  default is computed whether it is used or not) and \<open>t2\<close> at the end. A cache manager
  that is \<^verbatim>\<open>None\<close>, and a stored value that is not a dictionary, make the \<^verbatim>\<open>.get\<close> call
  raise inside the \<^verbatim>\<open>try\<close>: the function returns \<^verbatim>\<open>False\<close> and nothing changes.
\<close>

definition store_credential ::
  "mysql_manager \<Rightarrow> string \<Rightarrow> json \<Rightarrow> real \<Rightarrow> real \<Rightarrow> real \<Rightarrow> exn + (bool \<times> mysql_manager)" where
  "store_credential m filename credential_data t0 t1 t2 =
     (if \<not> initialized m then Inl not_initialized
      else
        (case credentials_cache_manager m of
           None \<Rightarrow> Inr (False, m)
         | Some c \<Rightarrow>
             (case cache_get c filename (JObj []) of
                JObj existing_data \<Rightarrow>
                  (let credential_entry = JObj
                         [(''credential'', credential_data),
                          (''state'', dict_get existing_data ''state'' (get_default_state t1)),
                          (''stats'', dict_get existing_data ''stats'' get_default_stats)];
                       r = cache_set c filename credential_entry
                   in Inr (fst r,
                           m\<lparr>credentials_cache_manager := Some (snd r),
                             operation_count := operation_count m + 1,
                             operation_times := deque_append (operation_times m) (t2 - t0)\<rparr>))
              | _ \<Rightarrow> Inr (False, m))))"

text \<open>
  \<^verbatim>\<open>
  async def get_credential(self, filename):
      self._ensure_initialized()
      try:
          credential_entry = await self._credentials_cache_manager.get(filename)
          self._operation_count += 1
          if credential_entry and "credential" in credential_entry:
              return credential_entry["credential"]
          return None
      except Exception as e:
          return None
  \<close>
  \<^verbatim>\<open>None\<close> is \<^const>\<open>JNull\<close>. Only a non-empty dictionary with the key gives a value: a
  string or a list that passes the \<^verbatim>\<open>in\<close> test raises on the subscript, a number or a
  boolean raises on the \<^verbatim>\<open>in\<close> test, and every exception gives \<^verbatim>\<open>None\<close>.
\<close>

definition get_credential :: "mysql_manager \<Rightarrow> string \<Rightarrow> exn + (json \<times> mysql_manager)" where
  "get_credential m filename =
     (if \<not> initialized m then Inl not_initialized
      else
        (case credentials_cache_manager m of
           None \<Rightarrow> Inr (JNull, m)
         | Some c \<Rightarrow>
             (let credential_entry = cache_get c filename JNull;
                  m' = m\<lparr>operation_count := operation_count m + 1\<rparr>
              in case credential_entry of
                   JObj d \<Rightarrow>
                     (case map_of d ''credential'' of
                        Some v \<Rightarrow> Inr (v, m')
                      | None \<Rightarrow> Inr (JNull, m'))
                 | _ \<Rightarrow> Inr (JNull, m'))))"

text \<open>
  \<^verbatim>\<open>
  async def list_credentials(self):
      self._ensure_initialized()
      try:
          all_data = await self._credentials_cache_manager.get_all()
          return list(all_data.keys())
      except Exception as e:
          return []
  \<close>
\<close>

definition list_credentials :: "mysql_manager \<Rightarrow> exn + string list" where
  "list_credentials m =
     (if \<not> initialized m then Inl not_initialized
      else
        (case credentials_cache_manager m of
           None \<Rightarrow> Inr []
         | Some c \<Rightarrow> Inr (map fst (cache_get_all c))))"

text \<open>
  \<^verbatim>\<open>
  async def get_all_credential_states(self):
      self._ensure_initialized()
      try:
          all_data = await self._credentials_cache_manager.get_all()
          states = {fn: data.get("state", self._get_default_state())
                    for fn, data in all_data.items()}
          return states
      except Exception as e:
          return {}
  \<close>
  The comprehension computes a default state, and so reads the clock, once for every
  record: \<open>clock i\<close> is the reading for the record at position \<open>i\<close>. A record that is
  not a dictionary makes \<^verbatim>\<open>data.get\<close> raise (\<open>None\<close>), and the function returns \<^verbatim>\<open>{}\<close>.
\<close>

fun states_from ::
  "(nat \<Rightarrow> real) \<Rightarrow> nat \<Rightarrow> (string \<times> json) list \<Rightarrow> (string \<times> json) list option" where
  "states_from clock i [] = Some []"
| "states_from clock i ((fn, data) # rest) =
     (case data of
        JObj d \<Rightarrow>
          (case states_from clock (Suc i) rest of
             None \<Rightarrow> None
           | Some states \<Rightarrow> Some ((fn, dict_get d ''state'' (get_default_state (clock i))) # states))
      | _ \<Rightarrow> None)"

definition get_all_credential_states ::
  "mysql_manager \<Rightarrow> (nat \<Rightarrow> real) \<Rightarrow> exn + (string \<times> json) list" where
  "get_all_credential_states m clock =
     (if \<not> initialized m then Inl not_initialized
      else
        (case credentials_cache_manager m of
           None \<Rightarrow> Inr []
         | Some c \<Rightarrow>
             (case states_from clock 0 (cache_get_all c) of
                None \<Rightarrow> Inr []
              | Some states \<Rightarrow> Inr states)))"

text \<open>
  \<^verbatim>\<open>MySQLCacheBackend.load_data\<close>. What the database does is given: acquiring a
  connection, executing the query or fetching may raise, and otherwise \<^verbatim>\<open>fetchone()\<close>
  gives no row or a row, whose first column is \<^verbatim>\<open>NULL\<close>, a string, a dictionary or a
  value of another type. \<^verbatim>\<open>json.loads\<close> is a parameter; it raises on text that is not
  JSON.
  \<^verbatim>\<open>
      try:
          async with self._pool.acquire() as conn:
              async with conn.cursor() as cur:
                  await cur.execute(...)
                  row = await cur.fetchone()
                  if row and row[0] is not None:
                      data = row[0]
                      if isinstance(data, str):
                          return json.loads(data)
                      elif isinstance(data, dict):
                          return data
                      else:
                          return {}
                  return {}
      except Exception as e:
          return {}
  \<close>
\<close>

datatype db_value = DbNull | DbStr string | DbDict "(string \<times> json) list" | DbOther

datatype db_read =
    AcquireFails exn
  | ExecuteFails exn
  | FetchFails exn
  | Fetched "db_value list option"

definition load_data :: "(string \<Rightarrow> exn + json) \<Rightarrow> db_read \<Rightarrow> json" where
  "load_data json_loads rd =
     (case rd of
        Fetched (Some (DbStr s # _)) \<Rightarrow>
          (case json_loads s of Inl e \<Rightarrow> JObj [] | Inr v \<Rightarrow> v)
      | Fetched (Some (DbDict d # _)) \<Rightarrow> JObj d
      | _ \<Rightarrow> JObj [])"

section \<open>Login (user\_manager.py and routers/auth.py)\<close>

text \<open>
  The exceptions that the login path can raise. \<open>DbError\<close> is whatever \<^verbatim>\<open>_execute\<close>
  re-raises; \<open>HTTPException\<close> carries the status code.
\<close>

datatype py_exc =
    TypeError
  | ValueError
  | KeyError string
  | HTTPException nat
  | DbError string

text \<open>Truthiness of a value (\<^verbatim>\<open>bool(x)\<close>).\<close>

fun json_truthy :: "json \<Rightarrow> bool" where
  "json_truthy JNull = False"
| "json_truthy (JBool b) = b"
| "json_truthy (JNum x) = (x \<noteq> 0)"
| "json_truthy (JStr s) = (s \<noteq> [])"
| "json_truthy (JList xs) = (xs \<noteq> [])"
| "json_truthy (JObj d) = (d \<noteq> [])"

text \<open>
  What \<^verbatim>\<open>UserManager.login\<close> takes from outside: the row that the \<^verbatim>\<open>SELECT id, role,
  api_key, disabled ...\<close> returns for a user name and a password hash (a dictionary, or
  no row), the password hash, the token drawn by \<^verbatim>\<open>secrets.token_urlsafe(32)\<close>, and
  the \<^verbatim>\<open>INSERT\<close> of the token.
\<close>

record user_db =
  select_user :: "string \<Rightarrow> string \<Rightarrow> py_exc + (string \<times> json) list option"
  hash_password :: "string \<Rightarrow> string"
  token_urlsafe :: string
  insert_token :: "string \<Rightarrow> json \<Rightarrow> real \<Rightarrow> py_exc option"

text \<open>\<^verbatim>\<open>row[key]\<close> raises \<^verbatim>\<open>KeyError\<close> when the key is missing.\<close>

definition subscript :: "(string \<times> json) list \<Rightarrow> string \<Rightarrow> py_exc + json" where
  "subscript row k = (case map_of row k of None \<Rightarrow> Inl (KeyError k) | Some v \<Rightarrow> Inr v)"

text \<open>
  \<^verbatim>\<open>
  async def login(self, username, password) -> Optional[dict]:
      pwd_hash = self._hash_password(password)
      row = await self._execute("SELECT id, role, api_key, disabled FROM users WHERE ...",
                                (username, pwd_hash), fetch_one=True)
      if row:
          user_id = row['id']
          disabled = bool(row['disabled'])
          if disabled:
              return None
          token = secrets.token_urlsafe(32)
          expires_at = time.time() + (30 * 24 * 3600)
          await self._execute("INSERT INTO tokens ...", (token, user_id, expires_at))
          return {"token": token, "user_id": user_id,
                  "role": row['role'], "api_key": row['api_key']}
      return None
  \<close>
\<close>

definition login :: "user_db \<Rightarrow> string \<Rightarrow> string \<Rightarrow> real \<Rightarrow> py_exc + json" where
  "login db username password now =
     (case select_user db username (hash_password db password) of
        Inl e \<Rightarrow> Inl e
      | Inr None \<Rightarrow> Inr JNull
      | Inr (Some row) \<Rightarrow>
          if row = [] then Inr JNull
          else
            (case subscript row ''id'' of
               Inl e \<Rightarrow> Inl e
             | Inr user_id \<Rightarrow>
                 (case subscript row ''disabled'' of
                    Inl e \<Rightarrow> Inl e
                  | Inr disabled \<Rightarrow>
                      if json_truthy disabled then Inr JNull
                      else
                        (case insert_token db (token_urlsafe db) user_id (now + 30 * 24 * 3600) of
                           Some e \<Rightarrow> Inl e
                         | None \<Rightarrow>
                             (case subscript row ''role'' of
                                Inl e \<Rightarrow> Inl e
                              | Inr role \<Rightarrow>
                                  (case subscript row ''api_key'' of
                                     Inl e \<Rightarrow> Inl e
                                   | Inr api_key \<Rightarrow>
                                       Inr (JObj [(''token'', JStr (token_urlsafe db)),
                                                  (''user_id'', user_id),
                                                  (''role'', role),
                                                  (''api_key'', api_key)])))))))"

text \<open>
  The assignment \<^verbatim>\<open>a, b, c = value\<close>: \<^verbatim>\<open>None\<close>, a boolean and a number are not
  iterable (\<^verbatim>\<open>TypeError\<close>); a dictionary yields its keys, a string its characters and a
  list its elements, and any number of them other than three is a \<^verbatim>\<open>ValueError\<close>.
\<close>

fun unpack3 :: "json \<Rightarrow> py_exc + (json \<times> json \<times> json)" where
  "unpack3 JNull = Inl TypeError"
| "unpack3 (JBool b) = Inl TypeError"
| "unpack3 (JNum x) = Inl TypeError"
| "unpack3 (JStr s) =
     (case s of [a, b, c] \<Rightarrow> Inr (JStr [a], JStr [b], JStr [c]) | _ \<Rightarrow> Inl ValueError)"
| "unpack3 (JList xs) =
     (case xs of [a, b, c] \<Rightarrow> Inr (a, b, c) | _ \<Rightarrow> Inl ValueError)"
| "unpack3 (JObj d) =
     (case map fst d of [a, b, c] \<Rightarrow> Inr (JStr a, JStr b, JStr c) | _ \<Rightarrow> Inl ValueError)"

text \<open>
  The route \<^verbatim>\<open>POST /auth/login\<close> (the audit log calls are left out):
  \<^verbatim>\<open>
      token, is_admin, user_id = await user_manager.login(request.username, request.password)
      if token:
          return {"token": token, "is_admin": is_admin, "user_id": user_id}
      else:
          raise HTTPException(status_code=401, detail=...)
  \<close>
\<close>

record token_response =
  token :: json
  is_admin :: json
  user_id :: json

definition login_route :: "user_db \<Rightarrow> string \<Rightarrow> string \<Rightarrow> real \<Rightarrow> py_exc + token_response" where
  "login_route db username password now =
     (case login db username password now of
        Inl e \<Rightarrow> Inl e
      | Inr result \<Rightarrow>
          (case unpack3 result of
             Inl e \<Rightarrow> Inl e
           | Inr (tok, adm, uid) \<Rightarrow>
               if json_truthy tok then Inr \<lparr>token = tok, is_admin = adm, user_id = uid\<rparr>
               else Inl (HTTPException 401)))"

section \<open>Vocabulary of the statements\<close>

text \<open>The records that \<^const>\<open>cleanup_auth_flows\<close> does not count as expired at time \<open>now\<close>.\<close>

definition unexpired :: "auth_service \<Rightarrow> real \<Rightarrow> (string \<times> flow_data) list" where
  "unexpired st now = filter (\<lambda>x. \<not> now - created_at (snd x) > 1800) (auth_flows st)"


text \<open>
  The calls made on a listener when it is asked to stop (shutdown then close, or the
  one shutdown that raises), the events that end a record (these calls, then the
  removal), and the part of a trace that concerns one record and its listener.
\<close>

definition listener_calls :: "(nat \<Rightarrow> bool) \<Rightarrow> nat option \<Rightarrow> event list" where
  "listener_calls raises srv =
     (case srv of
        None \<Rightarrow> []
      | Some h \<Rightarrow> if raises h then [ShutdownRaised h] else [ServerShutdown h, ServerClose h])"


definition flow_events :: "string \<Rightarrow> nat option \<Rightarrow> event list \<Rightarrow> event list" where
  "flow_events s srv tr =
     filter (\<lambda>e. e = FlowRemoved s \<or>
                 (case srv of
                    None \<Rightarrow> False
                  | Some h \<Rightarrow> e = ServerShutdown h \<or> e = ShutdownRaised h \<or> e = ServerClose h))
            tr"





text \<open>
  The records of the credential table, one field of one record, and the table with the
  secret of every record taken out. \<open>replace_secret\<close> puts another blob in the place
  of one record's secret.
\<close>

definition entries :: "mysql_manager \<Rightarrow> (string \<times> json) list" where
  "entries m = (case credentials_cache_manager m of None \<Rightarrow> [] | Some c \<Rightarrow> cache_data c)"

definition entry_field :: "mysql_manager \<Rightarrow> string \<Rightarrow> string \<Rightarrow> json option" where
  "entry_field m name field =
     (case credentials_cache_manager m of
        None \<Rightarrow> None
      | Some c \<Rightarrow>
          (case map_of (cache_data c) name of
             Some (JObj d) \<Rightarrow> map_of d field
           | _ \<Rightarrow> None))"

definition without_secret :: "json \<Rightarrow> json" where
  "without_secret v = (case v of JObj d \<Rightarrow> JObj (AList.delete ''credential'' d) | _ \<Rightarrow> v)"

definition health_view :: "mysql_manager \<Rightarrow> (string \<times> json) list" where
  "health_view m = map (\<lambda>x. (fst x, without_secret (snd x))) (entries m)"

definition replace_secret :: "string \<Rightarrow> json \<Rightarrow> mysql_manager \<Rightarrow> mysql_manager" where
  "replace_secret name blob m =
     (case credentials_cache_manager m of
        None \<Rightarrow> m
      | Some c \<Rightarrow>
          m\<lparr>credentials_cache_manager := Some
              (c\<lparr>cache_data :=
                   map (\<lambda>x. if fst x = name
                              then (fst x,
                                    case snd x of
                                      JObj d \<Rightarrow> JObj (AList.update ''credential'' blob d)
                                    | v \<Rightarrow> v)
                              else x)
                       (cache_data c)\<rparr>)\<rparr>)"

section \<open>Example states\<close>

definition flow0 :: flow_data where
  "flow0 = \<lparr>project_id = None, user_session = None, callback_port = 8080,
            callback_url = ''http://localhost:8080'', server = Some 1, code = None,
            completed = False, created_at = 1000, auto_project_detection = True,
            get_all_projects = False\<rparr>"

definition svc0 :: auth_service where
  "svc0 = \<lparr>auth_flows = [(''s1'', flow0),
                         (''s2'', flow0\<lparr>server := Some 2, created_at := 1200\<rparr>)],
           trace = []\<rparr>"

text \<open>Twelve flows, created 100 seconds apart.\<close>

definition flow_at :: "nat \<Rightarrow> real \<Rightarrow> flow_data" where
  "flow_at srv t = flow0\<lparr>server := Some srv, created_at := t\<rparr>"

definition svc12 :: auth_service where
  "svc12 = \<lparr>auth_flows =
              [(''a'', flow_at 1 100), (''b'', flow_at 2 200), (''c'', flow_at 3 300),
               (''d'', flow_at 4 400), (''e'', flow_at 5 500), (''f'', flow_at 6 600),
               (''g'', flow_at 7 700), (''h'', flow_at 8 800), (''i'', flow_at 9 900),
               (''j'', flow_at 10 1000), (''k'', flow_at 11 1100), (''l'', flow_at 12 1200)],
            trace = []\<rparr>"

text \<open>
  A listener thread that stores the code 350 seconds after the wait has begun, and
  one that stores it after 10 seconds.
\<close>

definition late_code :: "real \<Rightarrow> string option" where
  "late_code t = (if t < 350 then None else Some ''code123'')"

definition early_code :: "real \<Rightarrow> string option" where
  "early_code t = (if t < 10 then None else Some ''code123'')"

text \<open>A flow whose code has arrived, and collaborators that always succeed.\<close>

definition svc_ready :: auth_service where
  "svc_ready = \<lparr>auth_flows = [(''s1'', flow0\<lparr>code := Some ''code123'', completed := True\<rparr>)],
                trace = []\<rparr>"

definition creds0 :: credentials where
  "creds0 = \<lparr>access_token = ''ya29.token'', refresh_token = Some ''1//refresh'',
             expires_at = Some \<lparr>naive_iso = ''2025-01-01T00:00:00'', tzinfo = None\<rparr>\<rparr>"

definition env0 :: "project list \<Rightarrow> oauth_env" where
  "env0 projects =
     \<lparr>exchange_code = (\<lambda>c. Inr creds0),
      get_user_projects = (\<lambda>c. Inr projects),
      select_default_project = (\<lambda>ps. Inr None),
      enable_required_apis = (\<lambda>c p. None),
      oauth_client_id = ''client-id'',
      oauth_client_secret = ''client-secret'',
      adapter_store_credential = (\<lambda>f d. Inr True),
      str_of_int = (\<lambda>i. ''1700000000''),
      shutdown_raises = (\<lambda>h. False)\<rparr>"

definition one_project :: "project list" where
  "one_project = [[(''projectId'', ''demo-project''), (''name'', ''demo'')]]"

text \<open>A store holding one disabled credential, and the same store after a second one was added.\<close>

definition state0 :: json where
  "state0 = JObj [(''error_codes'', JList [JNum 429]), (''disabled'', JBool True),
                  (''last_success'', JNum 5), (''user_email'', JNull)]"

definition stats0 :: json where
  "stats0 = JObj [(''call_timestamps'', JList [JNum 1])]"

definition blob0 :: json where
  "blob0 = JObj [(''token'', JStr ''new-token'')]"

definition mgr0 :: mysql_manager where
  "mgr0 = \<lparr>initialized = True,
            credentials_cache_manager = Some
              \<lparr>cache_data = [(''a.json'', JObj [(''credential'', JObj [(''token'', JStr ''old-token'')]),
                                                (''state'', state0), (''stats'', stats0)])],
               dirty = False\<rparr>,
            operation_count = 0, operation_times = []\<rparr>"

definition mgr1 :: mysql_manager where
  "mgr1 = \<lparr>initialized = True,
            credentials_cache_manager = Some
              \<lparr>cache_data = [(''a.json'', JObj [(''credential'', JObj [(''token'', JStr ''old-token'')]),
                                                (''state'', state0), (''stats'', stats0)]),
                             (''b.json'', JObj [(''credential'', blob0),
                                                (''state'', get_default_state 11),
                                                (''stats'', get_default_stats)])],
               dirty = True\<rparr>,
            operation_count = 1, operation_times = [2]\<rparr>"

text \<open>A user table with one enabled administrator.\<close>

definition db0 :: user_db where
  "db0 = \<lparr>select_user =
            (\<lambda>u h. if u = ''admin'' \<and> h = ''hash-admin''
                    then Inr (Some [(''id'', JStr ''u1''), (''role'', JStr ''admin''),
                                    (''api_key'', JStr ''sk-gcli-1''), (''disabled'', JNum 0)])
                    else Inr None),
          hash_password = (\<lambda>p. ''hash-'' @ p),
          token_urlsafe = ''tok'',
          insert_token = (\<lambda>t u e. None)\<rparr>"

section \<open>The redirect callback\<close>

text \<open>
  C2. \<^verbatim>\<open>handle_callback\<close> returns \<^verbatim>\<open>False\<close> and changes nothing when the state is not
  a key of the flow map. When it is, the call returns \<^verbatim>\<open>True\<close>, the record under that
  state holds the code and \<^verbatim>\<open>completed = True\<close> with its other fields as before, every
  other key maps to what it mapped to, the keys and their order are the same, and no
  listener is touched.
\<close>

theorem handle_callback_spec:
  "(map_of (auth_flows st) s = None \<longrightarrow> handle_callback st s c = (False, st)) \<and>
   (\<forall>fd. map_of (auth_flows st) s = Some fd \<longrightarrow>
      fst (handle_callback st s c) = True \<and>
      map_of (auth_flows (snd (handle_callback st s c))) s =
        Some (fd\<lparr>code := Some c, completed := True\<rparr>) \<and>
      (\<forall>s'. s' \<noteq> s \<longrightarrow>
         map_of (auth_flows (snd (handle_callback st s c))) s' = map_of (auth_flows st) s') \<and>
      map fst (auth_flows (snd (handle_callback st s c))) = map fst (auth_flows st) \<and>
      trace (snd (handle_callback st s c)) = trace st)"
proof (cases "map_of (auth_flows st) s")
  case None
  then show ?thesis by (simp add: handle_callback_def)
next
  case (Some fd)
  then have "s \<in> fst ` set (auth_flows st)"
    by (metis map_of_eq_None_iff option.distinct(1))
  then have "map fst (AList.update s (fd\<lparr>code := Some c, completed := True\<rparr>) (auth_flows st))
      = map fst (auth_flows st)"
    by (simp add: update_keys)
  with Some show ?thesis
    by (simp add: handle_callback_def update_conv')
qed

theorem handle_callback_spec_witness:
  "handle_callback svc0 ''zz'' ''code123'' = (False, svc0) \<and>
   fst (handle_callback svc0 ''s2'' ''code123'') = True \<and>
   map_of (auth_flows (snd (handle_callback svc0 ''s2'' ''code123''))) ''s2'' =
     Some (flow0\<lparr>server := Some 2, created_at := 1200, code := Some ''code123'',
                 completed := True\<rparr>) \<and>
   map_of (auth_flows (snd (handle_callback svc0 ''s2'' ''code123''))) ''s1'' = Some flow0"
proof -
  have a: "map_of (auth_flows svc0) ''zz'' = None"
    by (simp add: svc0_def)
  have b: "map_of (auth_flows svc0) ''s2'' = Some (flow0\<lparr>server := Some 2, created_at := 1200\<rparr>)"
    by (simp add: svc0_def)
  have c: "map_of (auth_flows svc0) ''s1'' = Some flow0"
    by (simp add: svc0_def)
  from handle_callback_spec [of svc0 "''zz''" "''code123''"] a
  have 1: "handle_callback svc0 ''zz'' ''code123'' = (False, svc0)" by blast
  from handle_callback_spec [of svc0 "''s2''" "''code123''"] b
  have 2: "fst (handle_callback svc0 ''s2'' ''code123'') = True \<and>
      map_of (auth_flows (snd (handle_callback svc0 ''s2'' ''code123''))) ''s2'' =
        Some (flow0\<lparr>server := Some 2, created_at := 1200, code := Some ''code123'',
                    completed := True\<rparr>) \<and>
      (\<forall>s'. s' \<noteq> ''s2'' \<longrightarrow>
         map_of (auth_flows (snd (handle_callback svc0 ''s2'' ''code123''))) s' =
         map_of (auth_flows svc0) s')"
    by simp
  then have "map_of (auth_flows (snd (handle_callback svc0 ''s2'' ''code123''))) ''s1'' =
      map_of (auth_flows svc0) ''s1''"
    by simp
  with 1 2 c show ?thesis by simp
qed

section \<open>Cleaning up flows\<close>

lemma auth_flows_shutdown: "auth_flows (shutdown_flow_server raises st s) = auth_flows st"
  by (simp add: shutdown_flow_server_def split: option.splits)

lemma auth_flows_del_flow:
  "auth_flows (del_flow st k) = filter (\<lambda>x. fst x \<noteq> k) (auth_flows st)"
proof -
  have "(\<lambda>(k', uu). k \<noteq> k') = (\<lambda>x::string \<times> flow_data. fst x \<noteq> k)"
    by (auto simp: fun_eq_iff)
  then show ?thesis
    by (simp add: del_flow_def AList.delete_eq)
qed

lemma auth_flows_expire_fold:
  "auth_flows (fold (\<lambda>state st. del_flow (shutdown_flow_server raises st state) state) ks st) =
   filter (\<lambda>x. fst x \<notin> set ks) (auth_flows st)"
proof (induction ks arbitrary: st)
  case Nil
  then show ?case by simp
next
  case (Cons k ks)
  show ?case
    by (simp add: Cons auth_flows_del_flow auth_flows_shutdown conj_commute)
qed

lemma expired_filter:
  assumes "distinct (map fst flows)"
  shows "filter (\<lambda>x. fst x \<notin> set (expired flows now)) flows =
         filter (\<lambda>x. \<not> now - created_at (snd x) > 1800) flows"
proof (rule filter_cong [OF refl])
  fix x assume x: "x \<in> set flows"
  have "fst x \<in> set (expired flows now) \<longleftrightarrow> now - created_at (snd x) > 1800"
  proof
    assume "fst x \<in> set (expired flows now)"
    then obtain y where y: "y \<in> set flows" "now - created_at (snd y) > 1800" "fst y = fst x"
      by (auto simp: expired_def)
    from assms x y(1,3) have "y = x"
      by (metis eq_key_imp_eq_value prod.collapse)
    with y(2) show "now - created_at (snd x) > 1800" by simp
  next
    assume "now - created_at (snd x) > 1800"
    with x show "fst x \<in> set (expired flows now)"
      by (auto simp: expired_def)
  qed
  then show "(fst x \<notin> set (expired flows now)) = (\<not> now - created_at (snd x) > 1800)"
    by simp
qed

lemma set_sorted_flows: "set (sorted_flows xs) = set xs"
  by (simp add: sorted_flows_def)

lemma length_sorted_flows: "length (sorted_flows xs) = length xs"
  by (simp add: sorted_flows_def)

lemma sorted_flows_desc: "sorted (rev (map (\<lambda>x. created_at (snd x)) (sorted_flows xs)))"
  by (simp add: sorted_flows_def rev_map)

lemma distinct_sorted_flows:
  "distinct (map fst xs) \<Longrightarrow> distinct (map fst (sorted_flows xs))"
  by (simp add: sorted_flows_def distinct_map)

lemma take_drop_desc:
  assumes "sorted (rev (map k ys))" "x \<in> set (take n ys)" "y \<in> set (drop n ys)"
  shows "k y \<le> (k x :: real)"
proof -
  have "rev (map k ys) = rev (map k (drop n ys)) @ rev (map k (take n ys))"
    by (metis append_take_drop_id map_append rev_append)
  with assms(1) have "\<forall>a \<in> set (rev (map k (drop n ys))). \<forall>b \<in> set (rev (map k (take n ys))). a \<le> b"
    by (simp add: sorted_append)
  with assms(2,3) show ?thesis by simp
qed

lemma cleanup_flows_eq:
  assumes "distinct (map fst (auth_flows st))"
  shows "auth_flows (cleanup_auth_flows raises st now) =
     (if length (unexpired st now) > 10 then take 10 (sorted_flows (unexpired st now)) else unexpired st now)"
  using assms
  by (simp add: cleanup_auth_flows_def Let_def auth_flows_expire_fold expired_filter unexpired_def)

lemma length_update_le: "length (AList.update k v al) \<le> Suc (length al)"
  by (induction al) auto

lemma register_flow_at_capacity:
  assumes "MAX_AUTH_FLOWS \<le> length (auth_flows st)" and "distinct (map fst (auth_flows st))"
  shows "length (auth_flows (register_flow raises st now t state pid us ap port url srv)) \<le> 11"
proof -
  let ?fd = "\<lparr>project_id = pid, user_session = us, callback_port = port, callback_url = url,
      server = Some srv, code = None, completed = False, created_at = t,
      auto_project_detection = (pid = None), get_all_projects = ap\<rparr>"
  from assms(1) have "auth_flows (register_flow raises st now t state pid us ap port url srv) =
      AList.update state ?fd (auth_flows (cleanup_auth_flows raises st now))"
    by (simp add: register_flow_def Let_def)
  moreover have "length (auth_flows (cleanup_auth_flows raises st now)) \<le> 10"
    using assms(2) by (simp add: cleanup_flows_eq length_sorted_flows)
  moreover have "length (AList.update state ?fd (auth_flows (cleanup_auth_flows raises st now))) \<le>
      Suc (length (auth_flows (cleanup_auth_flows raises st now)))"
    by (rule length_update_le)
  ultimately show ?thesis by simp
qed

text \<open>
  C4. After a run of \<^verbatim>\<open>cleanup_auth_flows\<close> at time \<open>now\<close> on a flow map (a dictionary:
  its keys are distinct), no remaining record is older than 1800 seconds; the remaining
  records are records of the map before, at most ten of them, all of the unexpired ones
  when these are at most ten; and every remaining record was created no earlier than
  every record that was removed, so that the oldest go first.
\<close>

theorem cleanup_auth_flows_spec:
  assumes d: "distinct (map fst (auth_flows st))"
  shows "(\<forall>x \<in> set (auth_flows (cleanup_auth_flows raises st now)). now - created_at (snd x) \<le> 1800) \<and>
     set (auth_flows (cleanup_auth_flows raises st now)) \<subseteq> set (auth_flows st) \<and>
     distinct (map fst (auth_flows (cleanup_auth_flows raises st now))) \<and>
     length (auth_flows (cleanup_auth_flows raises st now)) = min 10 (length (unexpired st now)) \<and>
     (length (unexpired st now) \<le> 10 \<longrightarrow> auth_flows (cleanup_auth_flows raises st now) = unexpired st now) \<and>
     (\<forall>x \<in> set (auth_flows (cleanup_auth_flows raises st now)).
        \<forall>y \<in> set (auth_flows st) - set (auth_flows (cleanup_auth_flows raises st now)).
          created_at (snd y) \<le> created_at (snd x))"
proof -
  let ?res = "auth_flows (cleanup_auth_flows raises st now)"
  let ?live = "unexpired st now"
  let ?k = "\<lambda>x::string \<times> flow_data. created_at (snd x)"
  have res: "?res = (if length ?live > 10 then take 10 (sorted_flows ?live) else ?live)"
    using d by (rule cleanup_flows_eq)
  have sub: "set ?res \<subseteq> set ?live"
    using res set_take_subset [of 10 "sorted_flows ?live"] by (auto simp: set_sorted_flows)
  have live_set: "set ?live = {x \<in> set (auth_flows st). now - created_at (snd x) \<le> 1800}"
    by (auto simp: unexpired_def)
  have dl: "distinct (map fst ?live)"
    using d by (simp add: unexpired_def distinct_map_filter)
  have 1: "\<forall>x \<in> set ?res. now - created_at (snd x) \<le> 1800"
    using sub live_set by auto
  have 2: "set ?res \<subseteq> set (auth_flows st)"
    using sub live_set by auto
  have 3: "distinct (map fst ?res)"
    using res dl distinct_sorted_flows [OF dl] by (simp add: take_map [symmetric] distinct_take)
  have 4: "length ?res = min 10 (length ?live)"
    using res by (simp add: length_sorted_flows)
  have 5: "length ?live \<le> 10 \<longrightarrow> ?res = ?live"
    using res by simp
  have 6: "\<forall>x \<in> set ?res. \<forall>y \<in> set (auth_flows st) - set ?res. ?k y \<le> ?k x"
  proof (intro ballI)
    fix x y assume x: "x \<in> set ?res" and y: "y \<in> set (auth_flows st) - set ?res"
    from x 1 have xl: "now - ?k x \<le> 1800" by simp
    show "?k y \<le> ?k x"
    proof (cases "y \<in> set ?live")
      case False
      with y live_set have "now - ?k y > 1800" by auto
      with xl show ?thesis by simp
    next
      case True
      with y res have big: "length ?live > 10" by (auto split: if_splits)
      with res have r: "?res = take 10 (sorted_flows ?live)" by simp
      have "set (sorted_flows ?live) =
          set (take 10 (sorted_flows ?live)) \<union> set (drop 10 (sorted_flows ?live))"
        by (metis append_take_drop_id set_append)
      with True have "y \<in> set (take 10 (sorted_flows ?live)) \<union> set (drop 10 (sorted_flows ?live))"
        by (simp only: set_sorted_flows)
      with y r have "y \<in> set (drop 10 (sorted_flows ?live))" by auto
      with x r show ?thesis
        using take_drop_desc [OF sorted_flows_desc, of x 10 ?live y] by simp
    qed
  qed
  from 1 2 3 4 5 6 show ?thesis by blast
qed

theorem cleanup_auth_flows_spec_witness:
  "distinct (map fst (auth_flows svc12)) \<and>
   map fst (auth_flows (cleanup_auth_flows (\<lambda>h. False) svc12 2000)) =
     [''l'', ''k'', ''j'', ''i'', ''h'', ''g'', ''f'', ''e'', ''d'', ''c''] \<and>
   length (auth_flows (cleanup_auth_flows (\<lambda>h. False) svc12 2000)) = min 10 (length (unexpired svc12 2000)) \<and>
   set (auth_flows (cleanup_auth_flows (\<lambda>h. False) svc12 2000)) \<subseteq> set (auth_flows svc12) \<and>
   distinct (map fst (auth_flows (cleanup_auth_flows (\<lambda>h. False) svc12 2000)))"
proof -
  have d: "distinct (map fst (auth_flows svc12))"
    by (simp add: svc12_def)
  have keys: "map fst (auth_flows (cleanup_auth_flows (\<lambda>h. False) svc12 2000)) =
      [''l'', ''k'', ''j'', ''i'', ''h'', ''g'', ''f'', ''e'', ''d'', ''c'']"
  proof -
    have "auth_flows (cleanup_auth_flows (\<lambda>h. False) svc12 2000) =
        (if length (unexpired svc12 2000) > 10 then take 10 (sorted_flows (unexpired svc12 2000))
         else unexpired svc12 2000)"
      using d by (rule cleanup_flows_eq)
    then show ?thesis
      by (simp add: unexpired_def svc12_def flow_at_def flow0_def sorted_flows_def)
  qed
  from cleanup_auth_flows_spec [OF d, of "\<lambda>h. False" 2000] d keys show ?thesis
    by blast
qed

section \<open>Listeners are closed before their record goes\<close>










lemma flow_events_other_calls:
  "srv' \<noteq> srv \<or> srv' = None \<Longrightarrow> (\<forall>h. srv' = Some h \<longrightarrow> srv \<noteq> Some h) \<Longrightarrow>
   flow_events s srv (listener_calls raises srv') = []"
  by (auto simp: flow_events_def listener_calls_def split: option.splits)























section \<open>Waiting for the redirect\<close>

lemma wait_exit_late:
  "\<forall>t'. \<not> truthy (cb t') \<Longrightarrow> start + 300 \<le> wait_for_code cb dt start t"
proof (induction cb dt start t rule: wait_for_code.induct)
  case (1 cb dt start t)
  then show ?case
    by (subst wait_for_code.simps) auto
qed

lemma wait_exit_bound:
  "t < start + 300 + max (1/2) dt \<Longrightarrow>
   wait_for_code cb dt start t < start + 300 + max (1/2) dt"
proof (induction cb dt start t rule: wait_for_code.induct)
  case (1 cb dt start t)
  show ?case
  proof (cases "t - start < 300 \<and> \<not> truthy (cb t)")
    case True
    then have "t + max (1/2) dt < start + 300 + max (1/2) dt" by simp
    with True "1.IH" have "wait_for_code cb dt start (t + max (1/2) dt) < start + 300 + max (1/2) dt"
      by simp
    with True show ?thesis
      by (subst wait_for_code.simps) simp
  next
    case False
    with "1.prems" show ?thesis
      by (subst wait_for_code.simps) auto
  qed
qed

lemma wait_exit_code:
  "truthy (cb (wait_for_code cb dt start t)) \<or> start + 300 \<le> wait_for_code cb dt start t"
proof (induction cb dt start t rule: wait_for_code.induct)
  case (1 cb dt start t)
  show ?case
  proof (cases "t - start < 300")
    case True
    with "1.IH" show ?thesis
      by (subst (1 2) wait_for_code.simps) auto
  next
    case False
    then show ?thesis
      by (subst (1 2) wait_for_code.simps) auto
  qed
qed

lemma wait_exit_ge: "t \<le> wait_for_code cb dt start t"
proof (induction cb dt start t rule: wait_for_code.induct)
  case (1 cb dt start t)
  show ?case
  proof (cases "t - start < 300 \<and> \<not> truthy (cb t)")
    case True
    with "1.IH" have "t + max (1/2) dt \<le> wait_for_code cb dt start (t + max (1/2) dt)" by simp
    then have "t \<le> wait_for_code cb dt start (t + max (1/2) dt)" by simp
    with True show ?thesis
      by (subst wait_for_code.simps) simp
  next
    case False
    then show ?thesis
      by (subst wait_for_code.simps) auto
  qed
qed

lemma wait_exit_polls:
  "\<exists>k::nat. wait_for_code cb dt start t = t + real k * max (1/2) dt \<and>
      (\<forall>j<k. t + real j * max (1/2) dt - start < 300 \<and>
              \<not> truthy (cb (t + real j * max (1/2) dt))) \<and>
      (truthy (cb (t + real k * max (1/2) dt)) \<or> 300 \<le> t + real k * max (1/2) dt - start)"
proof (induction cb dt start t rule: wait_for_code.induct)
  case (1 cb dt start t)
  let ?d = "max (1/2) dt"
  show ?case
  proof (cases "t - start < 300 \<and> \<not> truthy (cb t)")
    case True
    with "1.IH" obtain k :: nat where
      k: "wait_for_code cb dt start (t + ?d) = t + ?d + real k * ?d"
        "\<forall>j<k. t + ?d + real j * ?d - start < 300 \<and> \<not> truthy (cb (t + ?d + real j * ?d))"
        "truthy (cb (t + ?d + real k * ?d)) \<or> 300 \<le> t + ?d + real k * ?d - start"
      by auto
    have shift: "\<And>j::nat. t + real (Suc j) * ?d = t + ?d + real j * ?d"
      by (simp add: algebra_simps)
    have "wait_for_code cb dt start t = t + real (Suc k) * ?d"
      using True k(1) by (subst wait_for_code.simps) (simp add: algebra_simps)
    moreover have "\<forall>j<Suc k. t + real j * ?d - start < 300 \<and> \<not> truthy (cb (t + real j * ?d))"
    proof (intro allI impI)
      fix j assume j: "j < Suc k"
      show "t + real j * ?d - start < 300 \<and> \<not> truthy (cb (t + real j * ?d))"
      proof (cases j)
        case 0
        with True show ?thesis by simp
      next
        case (Suc i)
        with j have "i < k" by simp
        with k(2) have "t + ?d + real i * ?d - start < 300 \<and>
            \<not> truthy (cb (t + ?d + real i * ?d))" by blast
        then show ?thesis
          unfolding Suc shift .
      qed
    qed
    moreover have "truthy (cb (t + real (Suc k) * ?d)) \<or> 300 \<le> t + real (Suc k) * ?d - start"
      using k(3) unfolding shift .
    ultimately show ?thesis by blast
  next
    case False
    then have "wait_for_code cb dt start t = t"
      by (subst wait_for_code.simps) auto
    with False have "wait_for_code cb dt start t = t + real (0::nat) * ?d \<and>
      (\<forall>j<0::nat. t + real j * ?d - start < 300 \<and> \<not> truthy (cb (t + real j * ?d))) \<and>
      (truthy (cb (t + real (0::nat) * ?d)) \<or> 300 \<le> t + real (0::nat) * ?d - start)"
      by auto
    then show ?thesis by blast
  qed
qed

lemma wait_exit_prompt:
  assumes "\<forall>t' \<ge> T. truthy (cb t')" and "t \<le> T"
  shows "wait_for_code cb dt start t < T + max (1/2) dt"
  using assms
proof (induction cb dt start t rule: wait_for_code.induct)
  case (1 cb dt start t)
  show ?case
  proof (cases "t - start < 300 \<and> \<not> truthy (cb t)")
    case True
    with "1.prems" have "t < T"
      by (metis not_le_imp_less order.order_iff_strict)
    show ?thesis
    proof (cases "t + max (1/2) dt \<le> T")
      case le: True
      with True "1.IH" "1.prems" have "wait_for_code cb dt start (t + max (1/2) dt) < T + max (1/2) dt"
        by simp
      with True show ?thesis
        by (subst wait_for_code.simps) simp
    next
      case gt: False
      then have here: "truthy (cb (t + max (1/2) dt))"
        using "1.prems" by simp
      have "wait_for_code cb dt start (t + max (1/2) dt) = t + max (1/2) dt"
        using here by (subst wait_for_code.simps) simp
      with True \<open>t < T\<close> show ?thesis
        by (subst wait_for_code.simps) simp
    qed
  next
    case False
    then have "wait_for_code cb dt start t = t"
      by (subst wait_for_code.simps) auto
    moreover have "0 < max (1/2) dt"
      by (simp add: less_max_iff_disj)
    ultimately show ?thesis
      using "1.prems" by simp
  qed
qed

lemma await_code_timeout:
  assumes "\<not> truthy (code fd)"
  shows "(fst (await_code st s fd cb dt start) = None \<or>
          fst (await_code st s fd cb dt start) = Some []) =
         (\<not> truthy (cb (wait_for_code cb dt start start)))"
proof (cases "cb (wait_for_code cb dt start start)")
  case None
  with assms show ?thesis by (simp add: await_code_def Let_def)
next
  case (Some c)
  with assms show ?thesis by (cases c) (simp_all add: await_code_def Let_def)
qed

lemma detect_not_timeout:
  "detect_project env fd pid creds = Inl r \<Longrightarrow> r \<noteq> Failure CallbackTimeout"
  by (auto simp: detect_project_def split: if_splits sum.splits list.splits)

lemma finish_not_timeout:
  "fst (finish_flow env now st s creds pid) \<noteq> Failure CallbackTimeout"
  by (simp add: finish_flow_def split: option.splits sum.splits)

lemma complete_after_wait:
  assumes g: "get_auth_flow st pid0 us = (Some s, Some fd)" and s: "s \<noteq> []"
    and proj: "truthy pid0 \<or> auto_project_detection fd \<or> truthy (project_id fd)"
    and aw: "await_code st s fd cb dt start = (Some c, st1)" and c: "c \<noteq> []"
  shows "complete_auth_flow env cb dt start now st pid0 us =
     (case exchange_code env c of
        Inl e \<Rightarrow> (Failure (Raised e), st1)
      | Inr creds \<Rightarrow>
          (case detect_project env fd
                  (if \<not> truthy pid0 \<and> \<not> auto_project_detection fd then project_id fd else pid0)
                  creds of
             Inl r \<Rightarrow> (r, st1)
           | Inr pid' \<Rightarrow> finish_flow env now st1 s creds pid'))"
  using g s proj aw c
  by (auto simp: complete_auth_flow_def Let_def)

lemma scan_flows_Inl_match:
  "scan_flows p us xs acc = Inl (s, d) \<Longrightarrow> p d"
  by (induction p us xs acc rule: scan_flows.induct) (auto split: if_splits)

lemma scan_flows_Inr_match:
  "scan_flows p us xs acc = Inr (a, b) \<Longrightarrow>
   (a, b) = acc \<or> (\<exists>s d. a = Some s \<and> b = Some d \<and> p d)"
  by (induction p us xs acc rule: scan_flows.induct) (auto split: if_splits)

lemma get_auth_flow_project:
  assumes g: "get_auth_flow st pid0 us = (Some s, Some fd)" and s: "s \<noteq> []"
  shows "truthy pid0 \<or> auto_project_detection fd"
proof (cases "truthy pid0")
  case True
  then show ?thesis by simp
next
  case False
  with g have "(case scan_flows auto_project_detection us (auth_flows st) (None, None) of
      Inl (s, d) \<Rightarrow> (Some s, Some d) | Inr r \<Rightarrow> r) = (Some s, Some fd)"
    by (simp add: get_auth_flow_def)
  then have "auto_project_detection fd"
    by (auto split: sum.splits dest: scan_flows_Inl_match scan_flows_Inr_match)
  then show ?thesis by simp
qed

text \<open>
  C3, as the code has it. When \<^verbatim>\<open>complete_auth_flow\<close> finds a flow whose code has not
  arrived, it polls: it reads the clock and the record's code at the start of the wait
  and then after every sleep (half a second or more), and leaves the loop at the first
  of these reads that finds a code or finds that 300 seconds or more have passed. So
  the wait ends less than one sleep after 300 seconds at the latest, and less than one
  sleep after the moment from which the record holds the code.

  The record is read once more after the loop. The call returns the failure
  "Callback timeout" exactly when the record holds no code at the moment the loop is
  left, and then 300 seconds or more have passed. A code that is there by the end of
  the 300 seconds is always taken: the result is then not the timeout, and a code that
  arrives before the 300 seconds are over is stored on the record by the callback. The
  failure is a returned value: in this model an exception caught by the function's
  handlers is the different value \<open>Failure (Raised e)\<close>.
\<close>

theorem callback_timeout:
  assumes g: "get_auth_flow st pid0 us = (Some s, Some fd)" and s: "s \<noteq> []"
    and nocode: "\<not> truthy (code fd)"
  shows "(\<exists>k::nat. wait_for_code cb dt start start = start + real k * max (1/2) dt \<and>
            (\<forall>j<k. real j * max (1/2) dt < 300 \<and>
                    \<not> truthy (cb (start + real j * max (1/2) dt))) \<and>
            (truthy (cb (wait_for_code cb dt start start)) \<or> 300 \<le> real k * max (1/2) dt)) \<and>
         start \<le> wait_for_code cb dt start start \<and>
         wait_for_code cb dt start start < start + 300 + max (1/2) dt \<and>
         (fst (complete_auth_flow env cb dt start now st pid0 us) = Failure CallbackTimeout) =
           (\<not> truthy (cb (wait_for_code cb dt start start))) \<and>
         (fst (complete_auth_flow env cb dt start now st pid0 us) = Failure CallbackTimeout \<longrightarrow>
            start + 300 \<le> wait_for_code cb dt start start) \<and>
         (\<forall>T. start \<le> T \<and> (\<forall>t\<ge>T. truthy (cb t)) \<longrightarrow>
            wait_for_code cb dt start start < T + max (1/2) dt \<and>
            (T \<le> start + 300 \<longrightarrow>
               fst (complete_auth_flow env cb dt start now st pid0 us) \<noteq> Failure CallbackTimeout)) \<and>
         (\<forall>T c. T < start + 300 \<and> c \<noteq> [] \<and> (\<forall>t. cb t = (if t < T then None else Some c)) \<longrightarrow>
            await_code st s fd cb dt start = (Some c, snd (handle_callback st s c)))"
proof -
  let ?t = "wait_for_code cb dt start start"
  let ?r = "complete_auth_flow env cb dt start now st pid0 us"
  from get_auth_flow_project [OF g s]
  have proj: "truthy pid0 \<or> auto_project_detection fd \<or> truthy (project_id fd)"
    by blast
  have polls: "\<exists>k::nat. ?t = start + real k * max (1/2) dt \<and>
            (\<forall>j<k. real j * max (1/2) dt < 300 \<and>
                    \<not> truthy (cb (start + real j * max (1/2) dt))) \<and>
            (truthy (cb ?t) \<or> 300 \<le> real k * max (1/2) dt)"
  proof -
    from wait_exit_polls [of cb dt start start] obtain k :: nat where
      k: "?t = start + real k * max (1/2) dt"
        "\<forall>j<k. start + real j * max (1/2) dt - start < 300 \<and>
               \<not> truthy (cb (start + real j * max (1/2) dt))"
        "truthy (cb (start + real k * max (1/2) dt)) \<or>
         300 \<le> start + real k * max (1/2) dt - start"
      by blast
    from k(2) have "\<forall>j<k. real j * max (1/2) dt < 300 \<and>
        \<not> truthy (cb (start + real j * max (1/2) dt))" by simp
    moreover from k(1,3) have "truthy (cb ?t) \<or> 300 \<le> real k * max (1/2) dt" by simp
    ultimately show ?thesis using k(1) by blast
  qed
  have ge: "start \<le> ?t" by (rule wait_exit_ge)
  have bound: "?t < start + 300 + max (1/2) dt"
    by (rule wait_exit_bound) (simp add: less_max_iff_disj)
  have timeout: "(fst ?r = Failure CallbackTimeout) = (\<not> truthy (cb ?t))"
  proof (cases "await_code st s fd cb dt start")
    case (Pair arrived st1)
    show ?thesis
    proof (cases "arrived = None \<or> arrived = Some []")
      case True
      with Pair have "fst ?r = Failure CallbackTimeout"
        using g s proj by (auto simp: complete_auth_flow_def Let_def)
      moreover from True Pair await_code_timeout [OF nocode, of st s cb dt start]
      have "\<not> truthy (cb ?t)" by simp
      ultimately show ?thesis by simp
    next
      case False
      then obtain c where c: "arrived = Some c" "c \<noteq> []" by auto
      with Pair have aw: "await_code st s fd cb dt start = (Some c, st1)" by simp
      from g s proj aw c(2)
      have "?r =
         (case exchange_code env c of
            Inl e \<Rightarrow> (Failure (Raised e), st1)
          | Inr creds \<Rightarrow>
              (case detect_project env fd
                      (if \<not> truthy pid0 \<and> \<not> auto_project_detection fd then project_id fd else pid0)
                      creds of
                 Inl r \<Rightarrow> (r, st1)
               | Inr pid' \<Rightarrow> finish_flow env now st1 s creds pid'))"
        by (rule complete_after_wait)
      then have "fst ?r \<noteq> Failure CallbackTimeout"
        by (simp add: finish_not_timeout detect_not_timeout split: sum.splits)
      moreover from False Pair await_code_timeout [OF nocode, of st s cb dt start]
      have "truthy (cb ?t)" by auto
      ultimately show ?thesis by simp
    qed
  qed
  have late: "fst ?r = Failure CallbackTimeout \<longrightarrow> start + 300 \<le> ?t"
    using timeout wait_exit_code [of cb dt start start] by blast
  have prompt: "\<forall>T. start \<le> T \<and> (\<forall>t\<ge>T. truthy (cb t)) \<longrightarrow>
            ?t < T + max (1/2) dt \<and>
            (T \<le> start + 300 \<longrightarrow> fst ?r \<noteq> Failure CallbackTimeout)"
  proof (intro allI impI conjI)
    fix T
    assume a: "start \<le> T \<and> (\<forall>t\<ge>T. truthy (cb t))"
    then show "?t < T + max (1/2) dt"
      by (simp add: wait_exit_prompt)
    assume "T \<le> start + 300"
    with a wait_exit_code [of cb dt start start] have "truthy (cb ?t)"
      by (meson order_trans)
    with timeout show "fst ?r \<noteq> Failure CallbackTimeout" by simp
  qed
  have stored: "\<forall>T c. T < start + 300 \<and> c \<noteq> [] \<and>
        (\<forall>t. cb t = (if t < T then None else Some c)) \<longrightarrow>
        await_code st s fd cb dt start = (Some c, snd (handle_callback st s c))"
  proof (intro allI impI)
    fix T c
    assume a: "T < start + 300 \<and> c \<noteq> [] \<and> (\<forall>t. cb t = (if t < T then None else Some c))"
    have "T \<le> ?t"
    proof (rule ccontr)
      assume "\<not> T \<le> ?t"
      with a have "\<not> start + 300 \<le> ?t" and "cb ?t = None" by simp_all
      with wait_exit_code [of cb dt start start] show False by simp
    qed
    with a have "cb ?t = Some c" by simp
    with nocode show "await_code st s fd cb dt start = (Some c, snd (handle_callback st s c))"
      by (simp add: await_code_def Let_def)
  qed
  from polls ge bound timeout late prompt stored show ?thesis
    by (intro conjI)
qed

lemma get_auth_flow_svc0: "get_auth_flow svc0 None None = (Some ''s1'', Some flow0)"
  by (simp add: get_auth_flow_def svc0_def flow0_def)

theorem callback_timeout_witness:
  "get_auth_flow svc0 None None = (Some ''s1'', Some flow0) \<and>
   fst (complete_auth_flow (env0 one_project) (\<lambda>t. None) 0 0 0 svc0 None None) =
     Failure CallbackTimeout \<and>
   300 \<le> wait_for_code (\<lambda>t. None) 0 0 0 \<and>
   wait_for_code (\<lambda>t. None) 0 0 0 < 300 + 1 / 2 \<and>
   wait_for_code early_code 0 0 0 < 10 + 1 / 2 \<and>
   await_code svc0 ''s1'' flow0 early_code 0 0 =
     (Some ''code123'', snd (handle_callback svc0 ''s1'' ''code123'')) \<and>
   fst (complete_auth_flow (env0 one_project) early_code 0 0 0 svc0 None None) \<noteq>
     Failure CallbackTimeout"
proof -
  have s: "''s1'' \<noteq> []" by simp
  have nocode: "\<not> truthy (code flow0)"
    by (simp add: flow0_def)
  note never = callback_timeout [OF get_auth_flow_svc0 s nocode,
      of "\<lambda>t. None" 0 0 "env0 one_project" 0]
  have a1: "fst (complete_auth_flow (env0 one_project) (\<lambda>t. None) 0 0 0 svc0 None None) =
      Failure CallbackTimeout"
    using never by simp
  with never have a2: "300 \<le> wait_for_code (\<lambda>t. None) 0 0 0"
    by simp
  from never have a3: "wait_for_code (\<lambda>t. None) 0 0 0 < 300 + 1 / 2"
    by simp
  note early = callback_timeout [OF get_auth_flow_svc0 s nocode,
      of early_code 0 0 "env0 one_project" 0]
  have from10: "(0::real) \<le> 10 \<and> (\<forall>t\<ge>10. truthy (early_code t))"
    by (simp add: early_code_def)
  have "\<forall>T. 0 \<le> T \<and> (\<forall>t\<ge>T. truthy (early_code t)) \<longrightarrow>
      wait_for_code early_code 0 0 0 < T + max (1/2) 0 \<and>
      (T \<le> 0 + 300 \<longrightarrow>
         fst (complete_auth_flow (env0 one_project) early_code 0 0 0 svc0 None None) \<noteq>
           Failure CallbackTimeout)"
    using early by blast
  with from10 have b: "wait_for_code early_code 0 0 0 < 10 + max (1/2) 0 \<and>
      ((10::real) \<le> 0 + 300 \<longrightarrow>
         fst (complete_auth_flow (env0 one_project) early_code 0 0 0 svc0 None None) \<noteq>
           Failure CallbackTimeout)"
    by blast
  then have b1: "wait_for_code early_code 0 0 0 < 10 + 1 / 2"
    by simp
  from b have b2: "fst (complete_auth_flow (env0 one_project) early_code 0 0 0 svc0 None None) \<noteq>
      Failure CallbackTimeout"
    by simp
  have shape: "(10::real) < 0 + 300 \<and> ''code123'' \<noteq> [] \<and>
      (\<forall>t. early_code t = (if t < 10 then None else Some ''code123''))"
    by (simp add: early_code_def)
  have "\<forall>T c. T < 0 + 300 \<and> c \<noteq> [] \<and> (\<forall>t. early_code t = (if t < T then None else Some c)) \<longrightarrow>
      await_code svc0 ''s1'' flow0 early_code 0 0 = (Some c, snd (handle_callback svc0 ''s1'' c))"
    using early by blast
  with shape have b3: "await_code svc0 ''s1'' flow0 early_code 0 0 =
      (Some ''code123'', snd (handle_callback svc0 ''s1'' ''code123''))"
    by blast
  from get_auth_flow_svc0 a1 a2 a3 b1 b3 b2 show ?thesis
    by (intro conjI)
qed

text \<open>
  No code arrives within 300 seconds, and the call succeeds. The listener stores the
  code after 350 seconds; the sleeps take 120 seconds each, so the loop reads the clock
  at 0, 120, 240 and 360 seconds, is left at 360 seconds, and the read after the loop
  finds the code.
\<close>

theorem late_code_counterexample:
  "get_auth_flow svc0 None None = (Some ''s1'', Some flow0) \<and>
   \<not> truthy (code flow0) \<and>
   \<not> (\<exists>t. t < 350 \<and> truthy (late_code t)) \<and>
   wait_for_code late_code 120 0 0 = 360 \<and>
   fst (complete_auth_flow (env0 one_project) late_code 120 0 0 svc0 None None) =
     Success ''ya29.token'' ''demo-project'' (Some ''2025-01-01T00:00:00'')
       ''demo-project-1700000000.json''"
proof -
  have nocode: "\<not> truthy (code flow0)"
    by (simp add: flow0_def)
  have none: "\<not> (\<exists>t. t < 350 \<and> truthy (late_code t))"
    by (simp add: late_code_def)
  have w3: "wait_for_code late_code 120 0 360 = 360"
    by (subst wait_for_code.simps) simp
  have w2: "wait_for_code late_code 120 0 240 = 360"
    by (subst wait_for_code.simps) (simp add: late_code_def w3)
  have w1: "wait_for_code late_code 120 0 120 = 360"
    by (subst wait_for_code.simps) (simp add: late_code_def w2)
  have w0: "wait_for_code late_code 120 0 0 = 360"
    by (subst wait_for_code.simps) (simp add: late_code_def w1)
  have aw: "await_code svc0 ''s1'' flow0 late_code 120 0 =
      (Some ''code123'', snd (handle_callback svc0 ''s1'' ''code123''))"
    by (simp add: await_code_def Let_def nocode w0 late_code_def)
  have final: "fst (complete_auth_flow (env0 one_project) late_code 120 0 0 svc0 None None) =
     Success ''ya29.token'' ''demo-project'' (Some ''2025-01-01T00:00:00'')
       ''demo-project-1700000000.json''"
  proof -
    have s: "''s1'' \<noteq> []" by simp
    have proj: "truthy None \<or> auto_project_detection flow0 \<or> truthy (project_id flow0)"
      by (simp add: flow0_def)
    have c: "''code123'' \<noteq> []" by simp
    note complete_after_wait [OF get_auth_flow_svc0 s proj aw c, of "env0 one_project" 0]
    then show ?thesis
      by (simp add: flow0_def env0_def detect_project_def one_project_def finish_flow_def
          save_credentials_def creds0_def isoformat_def Let_def)
  qed
  from get_auth_flow_svc0 nocode none w0 final show ?thesis
    by (intro conjI)
qed

section \<open>Choosing the project\<close>

lemma get_auth_flow_ready:
  "get_auth_flow svc_ready None None =
     (Some ''s1'', Some (flow0\<lparr>code := Some ''code123'', completed := True\<rparr>))"
  by (simp add: get_auth_flow_def svc_ready_def flow0_def)

text \<open>
  C1, as the code has it. The call has found a flow with automatic project detection,
  the caller pinned no project, and the code was exchanged for credentials. With no
  project the result is the failure "No projects found". With exactly one project the
  call goes on with that project's \<^verbatim>\<open>projectId\<close>: when it is present and not empty and
  enabling the APIs and saving succeed, the result is the success naming it and the flow
  is removed; when it is absent or empty the result is the failure "Missing Project ID".
  With more than one project and no default, the result is the selection-required
  outcome with the whole list, and the flow stays.
\<close>

theorem project_detection:
  assumes g: "get_auth_flow st pid0 us = (Some s, Some fd)" and s: "s \<noteq> []"
    and auto: "auto_project_detection fd" and nopin: "\<not> truthy pid0"
    and aw: "await_code st s fd cb dt start = (Some c, st1)" and c: "c \<noteq> []"
    and ex: "exchange_code env c = Inr creds"
  shows
    "(get_user_projects env creds = Inr [] \<longrightarrow>
        complete_auth_flow env cb dt start now st pid0 us = (Failure NoProjectsFound, st1)) \<and>
     (\<forall>p. get_user_projects env creds = Inr [p] \<longrightarrow>
        complete_auth_flow env cb dt start now st pid0 us =
          finish_flow env now st1 s creds (map_of p ''projectId'')) \<and>
     (\<forall>p q f. get_user_projects env creds = Inr [p] \<and> map_of p ''projectId'' = Some q \<and> q \<noteq> [] \<and>
        enable_required_apis env creds q = None \<and> save_credentials env now creds q = Inr f \<longrightarrow>
        complete_auth_flow env cb dt start now st pid0 us =
          (Success (access_token creds) q (map_option isoformat (expires_at creds)) f,
           del_flow (shutdown_flow_server (shutdown_raises env) st1 s) s)) \<and>
     (\<forall>p. get_user_projects env creds = Inr [p] \<and> \<not> truthy (map_of p ''projectId'') \<longrightarrow>
        complete_auth_flow env cb dt start now st pid0 us = (Failure MissingProjectId, st1)) \<and>
     (\<forall>ps chosen. get_user_projects env creds = Inr ps \<and> 1 < length ps \<and>
        select_default_project env ps = Inr chosen \<and> \<not> truthy chosen \<longrightarrow>
        complete_auth_flow env cb dt start now st pid0 us = (SelectionRequired ps, st1))"
proof -
  from auto have proj: "truthy pid0 \<or> auto_project_detection fd \<or> truthy (project_id fd)"
    by simp
  from auto ex complete_after_wait [OF g s proj aw c, of env now]
  have run: "complete_auth_flow env cb dt start now st pid0 us =
      (case detect_project env fd pid0 creds of
         Inl r \<Rightarrow> (r, st1)
       | Inr pid' \<Rightarrow> finish_flow env now st1 s creds pid')"
    by simp
  have none: "get_user_projects env creds = Inr [] \<Longrightarrow>
      detect_project env fd pid0 creds = Inl (Failure NoProjectsFound)"
    using auto nopin by (simp add: detect_project_def)
  have one: "\<And>p. get_user_projects env creds = Inr [p] \<Longrightarrow>
      detect_project env fd pid0 creds = Inr (map_of p ''projectId'')"
    using auto nopin by (simp add: detect_project_def)
  have many: "\<And>ps chosen. get_user_projects env creds = Inr ps \<Longrightarrow> 1 < length ps \<Longrightarrow>
      select_default_project env ps = Inr chosen \<Longrightarrow> \<not> truthy chosen \<Longrightarrow>
      detect_project env fd pid0 creds = Inl (SelectionRequired ps)"
  proof -
    fix ps chosen
    assume a: "get_user_projects env creds = Inr ps" "1 < length ps"
      "select_default_project env ps = Inr chosen" "\<not> truthy chosen"
    from a(2) obtain p1 p2 rest where "ps = p1 # p2 # rest"
      by (cases ps; cases "tl ps") auto
    with a auto nopin show "detect_project env fd pid0 creds = Inl (SelectionRequired ps)"
      by (simp add: detect_project_def)
  qed
  show ?thesis
  proof (intro conjI allI impI)
    assume "get_user_projects env creds = Inr []"
    with run none show "complete_auth_flow env cb dt start now st pid0 us =
        (Failure NoProjectsFound, st1)" by simp
  next
    fix p assume "get_user_projects env creds = Inr [p]"
    with run one show "complete_auth_flow env cb dt start now st pid0 us =
        finish_flow env now st1 s creds (map_of p ''projectId'')" by simp
  next
    fix p q f
    assume a: "get_user_projects env creds = Inr [p] \<and> map_of p ''projectId'' = Some q \<and> q \<noteq> [] \<and>
        enable_required_apis env creds q = None \<and> save_credentials env now creds q = Inr f"
    with run one [of p] show "complete_auth_flow env cb dt start now st pid0 us =
        (Success (access_token creds) q (map_option isoformat (expires_at creds)) f,
         del_flow (shutdown_flow_server (shutdown_raises env) st1 s) s)"
      by (simp add: finish_flow_def)
  next
    fix p
    assume a: "get_user_projects env creds = Inr [p] \<and> \<not> truthy (map_of p ''projectId'')"
    with run one [of p] show "complete_auth_flow env cb dt start now st pid0 us =
        (Failure MissingProjectId, st1)"
      by (cases "map_of p ''projectId''") (simp_all add: finish_flow_def)
  next
    fix ps chosen
    assume "get_user_projects env creds = Inr ps \<and> 1 < length ps \<and>
        select_default_project env ps = Inr chosen \<and> \<not> truthy chosen"
    with run many [of ps chosen] show "complete_auth_flow env cb dt start now st pid0 us =
        (SelectionRequired ps, st1)" by simp
  qed
qed

theorem project_detection_witness:
  "get_auth_flow svc_ready None None =
     (Some ''s1'', Some (flow0\<lparr>code := Some ''code123'', completed := True\<rparr>)) \<and>
   complete_auth_flow (env0 one_project) (\<lambda>t. None) 0 0 1700000000 svc_ready None None =
     (Success ''ya29.token'' ''demo-project'' (Some ''2025-01-01T00:00:00'')
        ''demo-project-1700000000.json'',
      \<lparr>auth_flows = [], trace = [ServerShutdown 1, ServerClose 1, FlowRemoved ''s1'']\<rparr>) \<and>
   complete_auth_flow (env0 []) (\<lambda>t. None) 0 0 1700000000 svc_ready None None =
     (Failure NoProjectsFound, svc_ready) \<and>
   complete_auth_flow (env0 (one_project @ one_project)) (\<lambda>t. None) 0 0 1700000000
       svc_ready None None =
     (SelectionRequired (one_project @ one_project), svc_ready)"
proof -
  let ?fd = "flow0\<lparr>code := Some ''code123'', completed := True\<rparr>"
  have s: "''s1'' \<noteq> []" by simp
  have auto: "auto_project_detection ?fd" by (simp add: flow0_def)
  have nopin: "\<not> truthy None" by simp
  have aw: "await_code svc_ready ''s1'' ?fd (\<lambda>t. None) 0 0 = (Some ''code123'', svc_ready)"
    by (simp add: await_code_def)
  have c: "''code123'' \<noteq> []" by simp
  have ex: "\<And>ps. exchange_code (env0 ps) ''code123'' = Inr creds0"
    by (simp add: env0_def)
  have saved: "save_credentials (env0 one_project) 1700000000 creds0 ''demo-project'' =
      Inr ''demo-project-1700000000.json''"
    by (simp add: save_credentials_def env0_def)
  have final: "del_flow (shutdown_flow_server (shutdown_raises (env0 one_project)) svc_ready ''s1'')
      ''s1'' =
      \<lparr>auth_flows = [], trace = [ServerShutdown 1, ServerClose 1, FlowRemoved ''s1'']\<rparr>"
    by (simp add: del_flow_def shutdown_flow_server_def svc_ready_def flow0_def env0_def)
  have iso: "map_option isoformat (expires_at creds0) = Some ''2025-01-01T00:00:00''"
    by (simp add: creds0_def isoformat_def)
  let ?p = "[(''projectId'', ''demo-project''), (''name'', ''demo'')]"
  have gp1: "get_user_projects (env0 one_project) creds0 = Inr [?p]"
    by (simp add: env0_def one_project_def)
  have pid: "map_of ?p ''projectId'' = Some ''demo-project''" by simp
  have q: "''demo-project'' \<noteq> []" by simp
  have en: "enable_required_apis (env0 one_project) creds0 ''demo-project'' = None"
    by (simp add: env0_def)
  from project_detection [OF get_auth_flow_ready s auto nopin aw c ex, of one_project 1700000000]
    gp1 pid q en saved
  have 1: "complete_auth_flow (env0 one_project) (\<lambda>t. None) 0 0 1700000000 svc_ready None None =
      (Success (access_token creds0) ''demo-project'' (map_option isoformat (expires_at creds0))
         ''demo-project-1700000000.json'',
       del_flow (shutdown_flow_server (shutdown_raises (env0 one_project)) svc_ready ''s1'') ''s1'')"
    by blast
  have gp0: "get_user_projects (env0 []) creds0 = Inr []"
    by (simp add: env0_def)
  from project_detection [OF get_auth_flow_ready s auto nopin aw c ex, of "[]" 1700000000] gp0
  have 2: "complete_auth_flow (env0 []) (\<lambda>t. None) 0 0 1700000000 svc_ready None None =
      (Failure NoProjectsFound, svc_ready)"
    by blast
  have gp2: "get_user_projects (env0 (one_project @ one_project)) creds0 =
      Inr (one_project @ one_project)"
    by (simp add: env0_def)
  have len: "1 < length (one_project @ one_project)"
    by (simp add: one_project_def)
  have sel: "select_default_project (env0 (one_project @ one_project)) (one_project @ one_project) =
      Inr None"
    by (simp add: env0_def)
  from project_detection [OF get_auth_flow_ready s auto nopin aw c ex,
      of "one_project @ one_project" 1700000000] gp2 len sel nopin
  have 3: "complete_auth_flow (env0 (one_project @ one_project)) (\<lambda>t. None) 0 0 1700000000
      svc_ready None None = (SelectionRequired (one_project @ one_project), svc_ready)"
    by blast
  from 1 2 3 final iso get_auth_flow_ready show ?thesis
    by (simp add: creds0_def)
qed

text \<open>
  A single project is not enough for the call to go on: when the one project that the
  project API returns carries no \<^verbatim>\<open>projectId\<close>, the call ends in the failure
  "Missing Project ID" and the flow stays.
\<close>

theorem single_project_counterexample:
  "get_user_projects (env0 [[(''name'', ''demo'')]]) creds0 = Inr [[(''name'', ''demo'')]] \<and>
   complete_auth_flow (env0 [[(''name'', ''demo'')]]) (\<lambda>t. None) 0 0 0 svc_ready None None =
     (Failure MissingProjectId, svc_ready)"
  by (simp add: complete_auth_flow_def get_auth_flow_ready Let_def await_code_def flow0_def
      env0_def detect_project_def finish_flow_def)

section \<open>Adding a credential\<close>

lemma store_credential_result:
  assumes init: "initialized m" and cache: "credentials_cache_manager m = Some c"
    and ex: "cache_get c name (JObj []) = JObj d"
  shows "store_credential m name blob t0 t1 t2 =
     Inr (True,
          m\<lparr>credentials_cache_manager := Some
               (c\<lparr>cache_data := AList.update name
                     (JObj [(''credential'', blob),
                            (''state'', dict_get d ''state'' (get_default_state t1)),
                            (''stats'', dict_get d ''stats'' get_default_stats)])
                     (cache_data c),
                   dirty := True\<rparr>),
            operation_count := operation_count m + 1,
            operation_times := deque_append (operation_times m) (t2 - t0)\<rparr>)"
  using assms by (simp add: store_credential_def cache_set_def Let_def)

text \<open>
  C6. On an initialised manager, \<^verbatim>\<open>store_credential(name, blob)\<close> succeeds whenever the
  name is new or holds a record (a dictionary). Afterwards the record's secret is the
  blob; a state and stats that the record had before are the same as before; for a new
  name the state is \<^verbatim>\<open>{error_codes: [], disabled: False, last_success: now,
  user_email: None}\<close> and the stats are empty; and no other name is touched.
\<close>

theorem store_credential_upsert:
  assumes init: "initialized m" and cache: "credentials_cache_manager m = Some c"
    and ex: "map_of (cache_data c) name = None \<or> (\<exists>d. map_of (cache_data c) name = Some (JObj d))"
  shows "\<exists>m'. store_credential m name blob t0 t1 t2 = Inr (True, m') \<and>
           entry_field m' name ''credential'' = Some blob \<and>
           (\<forall>s. entry_field m name ''state'' = Some s \<longrightarrow> entry_field m' name ''state'' = Some s) \<and>
           (\<forall>s. entry_field m name ''stats'' = Some s \<longrightarrow> entry_field m' name ''stats'' = Some s) \<and>
           (map_of (entries m) name = None \<longrightarrow>
              entry_field m' name ''state'' =
                Some (JObj [(''error_codes'', JList []), (''disabled'', JBool False),
                            (''last_success'', JNum t1), (''user_email'', JNull)]) \<and>
              entry_field m' name ''stats'' = Some (JObj [(''call_timestamps'', JList [])])) \<and>
           (\<forall>k. k \<noteq> name \<longrightarrow> map_of (entries m') k = map_of (entries m) k)"
proof -
  from ex obtain d where d: "cache_get c name (JObj []) = JObj d"
    and dd: "map_of (cache_data c) name = None \<and> d = [] \<or> map_of (cache_data c) name = Some (JObj d)"
    by (auto simp: cache_get_def)
  define st where "st = dict_get d ''state'' (get_default_state t1)"
  define ss where "ss = dict_get d ''stats'' get_default_stats"
  define m' where "m' = m\<lparr>credentials_cache_manager := Some
               (c\<lparr>cache_data := AList.update name
                     (JObj [(''credential'', blob), (''state'', st), (''stats'', ss)])
                     (cache_data c),
                   dirty := True\<rparr>),
            operation_count := operation_count m + 1,
            operation_times := deque_append (operation_times m) (t2 - t0)\<rparr>"
  have run: "store_credential m name blob t0 t1 t2 = Inr (True, m')"
    unfolding m'_def st_def ss_def using init cache d by (rule store_credential_result)
  have f: "entry_field m' name field =
      map_of [(''credential'', blob), (''state'', st), (''stats'', ss)] field" for field
    by (simp add: m'_def entry_field_def update_conv')
  have old: "map_of d field = Some s" if "entry_field m name field = Some s" for field s
    using that cache dd by (auto simp: entry_field_def)
  have 1: "entry_field m' name ''credential'' = Some blob"
    by (simp add: f)
  have 2: "\<forall>s. entry_field m name ''state'' = Some s \<longrightarrow> entry_field m' name ''state'' = Some s"
  proof (intro allI impI)
    fix s assume "entry_field m name ''state'' = Some s"
    then have "map_of d ''state'' = Some s" by (rule old)
    then have "st = s" by (simp add: st_def dict_get_def)
    then show "entry_field m' name ''state'' = Some s" by (simp add: f)
  qed
  have 3: "\<forall>s. entry_field m name ''stats'' = Some s \<longrightarrow> entry_field m' name ''stats'' = Some s"
  proof (intro allI impI)
    fix s assume "entry_field m name ''stats'' = Some s"
    then have "map_of d ''stats'' = Some s" by (rule old)
    then have "ss = s" by (simp add: ss_def dict_get_def)
    then show "entry_field m' name ''stats'' = Some s" by (simp add: f)
  qed
  have 4: "map_of (entries m) name = None \<longrightarrow>
      entry_field m' name ''state'' =
        Some (JObj [(''error_codes'', JList []), (''disabled'', JBool False),
                    (''last_success'', JNum t1), (''user_email'', JNull)]) \<and>
      entry_field m' name ''stats'' = Some (JObj [(''call_timestamps'', JList [])])"
  proof
    assume "map_of (entries m) name = None"
    with cache dd have "d = []" by (auto simp: entries_def)
    then have "st = get_default_state t1" "ss = get_default_stats"
      by (simp_all add: st_def ss_def dict_get_def)
    then show "entry_field m' name ''state'' =
        Some (JObj [(''error_codes'', JList []), (''disabled'', JBool False),
                    (''last_success'', JNum t1), (''user_email'', JNull)]) \<and>
      entry_field m' name ''stats'' = Some (JObj [(''call_timestamps'', JList [])])"
      by (simp add: f get_default_state_def get_default_stats_def)
  qed
  have 5: "\<forall>k. k \<noteq> name \<longrightarrow> map_of (entries m') k = map_of (entries m) k"
    using cache by (simp add: m'_def entries_def update_conv')
  from run 1 2 3 4 5 show ?thesis
    by (intro exI [of _ m'] conjI)
qed

theorem store_credential_upsert_witness:
  "(\<exists>m'. store_credential mgr0 ''a.json'' blob0 10 11 12 = Inr (True, m') \<and>
         entry_field m' ''a.json'' ''credential'' = Some blob0 \<and>
         entry_field m' ''a.json'' ''state'' = Some state0 \<and>
         entry_field m' ''a.json'' ''stats'' = Some stats0) \<and>
   (\<exists>m'. store_credential mgr0 ''b.json'' blob0 10 11 12 = Inr (True, m') \<and>
         entry_field m' ''b.json'' ''credential'' = Some blob0 \<and>
         entry_field m' ''b.json'' ''state'' =
           Some (JObj [(''error_codes'', JList []), (''disabled'', JBool False),
                       (''last_success'', JNum 11), (''user_email'', JNull)]) \<and>
         entry_field m' ''a.json'' ''state'' = Some state0)"
proof -
  let ?c = "\<lparr>cache_data = [(''a.json'', JObj [(''credential'', JObj [(''token'', JStr ''old-token'')]),
                                             (''state'', state0), (''stats'', stats0)])],
            dirty = False\<rparr>"
  have init: "initialized mgr0" by (simp add: mgr0_def)
  have cache: "credentials_cache_manager mgr0 = Some ?c" by (simp add: mgr0_def)
  have exa: "map_of (cache_data ?c) ''a.json'' = None \<or>
      (\<exists>d. map_of (cache_data ?c) ''a.json'' = Some (JObj d))" by simp
  have exb: "map_of (cache_data ?c) ''b.json'' = None \<or>
      (\<exists>d. map_of (cache_data ?c) ''b.json'' = Some (JObj d))" by simp
  have olds: "entry_field mgr0 ''a.json'' ''state'' = Some state0"
    "entry_field mgr0 ''a.json'' ''stats'' = Some stats0"
    by (simp_all add: entry_field_def mgr0_def)
  have new: "map_of (entries mgr0) ''b.json'' = None"
    by (simp add: entries_def mgr0_def)
  have other: "map_of (entries mgr0) ''a.json'' =
      Some (JObj [(''credential'', JObj [(''token'', JStr ''old-token'')]),
                  (''state'', state0), (''stats'', stats0)])"
    by (simp add: entries_def mgr0_def)
  from store_credential_upsert [OF init cache exa, of blob0 10 11 12]
  obtain ma where ma: "store_credential mgr0 ''a.json'' blob0 10 11 12 = Inr (True, ma)"
    "entry_field ma ''a.json'' ''credential'' = Some blob0"
    "\<forall>s. entry_field mgr0 ''a.json'' ''state'' = Some s \<longrightarrow> entry_field ma ''a.json'' ''state'' = Some s"
    "\<forall>s. entry_field mgr0 ''a.json'' ''stats'' = Some s \<longrightarrow> entry_field ma ''a.json'' ''stats'' = Some s"
    by (elim exE conjE)
  from ma(3) olds(1) have sa: "entry_field ma ''a.json'' ''state'' = Some state0" by simp
  from ma(4) olds(2) have ta: "entry_field ma ''a.json'' ''stats'' = Some stats0" by simp
  from ma(1,2) sa ta
  have a: "\<exists>m'. store_credential mgr0 ''a.json'' blob0 10 11 12 = Inr (True, m') \<and>
         entry_field m' ''a.json'' ''credential'' = Some blob0 \<and>
         entry_field m' ''a.json'' ''state'' = Some state0 \<and>
         entry_field m' ''a.json'' ''stats'' = Some stats0"
    by (intro exI [of _ ma] conjI)
  from store_credential_upsert [OF init cache exb, of blob0 10 11 12]
  obtain mb where mb: "store_credential mgr0 ''b.json'' blob0 10 11 12 = Inr (True, mb)"
    "entry_field mb ''b.json'' ''credential'' = Some blob0"
    "map_of (entries mgr0) ''b.json'' = None \<longrightarrow>
       entry_field mb ''b.json'' ''state'' =
         Some (JObj [(''error_codes'', JList []), (''disabled'', JBool False),
                     (''last_success'', JNum 11), (''user_email'', JNull)]) \<and>
       entry_field mb ''b.json'' ''stats'' = Some (JObj [(''call_timestamps'', JList [])])"
    "\<forall>k. k \<noteq> ''b.json'' \<longrightarrow> map_of (entries mb) k = map_of (entries mgr0) k"
    by (elim exE conjE)
  from mb(3) new have sb: "entry_field mb ''b.json'' ''state'' =
         Some (JObj [(''error_codes'', JList []), (''disabled'', JBool False),
                     (''last_success'', JNum 11), (''user_email'', JNull)])"
    by simp
  from mb(4) have "map_of (entries mb) ''a.json'' = map_of (entries mgr0) ''a.json''"
    by simp
  with other have "map_of (entries mb) ''a.json'' =
      Some (JObj [(''credential'', JObj [(''token'', JStr ''old-token'')]),
                  (''state'', state0), (''stats'', stats0)])"
    by simp
  then have keep: "entry_field mb ''a.json'' ''state'' = Some state0"
    by (cases "credentials_cache_manager mb") (simp_all add: entry_field_def entries_def)
  from mb(1,2) sb keep
  have b: "\<exists>m'. store_credential mgr0 ''b.json'' blob0 10 11 12 = Inr (True, m') \<and>
         entry_field m' ''b.json'' ''credential'' = Some blob0 \<and>
         entry_field m' ''b.json'' ''state'' =
           Some (JObj [(''error_codes'', JList []), (''disabled'', JBool False),
                       (''last_success'', JNum 11), (''user_email'', JNull)]) \<and>
         entry_field m' ''a.json'' ''state'' = Some state0"
    by (intro exI [of _ mb] conjI)
  from a b show ?thesis ..
qed

section \<open>Reading back a credential\<close>

text \<open>
  C7. After a successful \<^verbatim>\<open>store_credential(name, blob)\<close>, \<^verbatim>\<open>get_credential(name)\<close> on
  the resulting manager returns the blob (and counts one more operation), and
  \<^verbatim>\<open>list_credentials()\<close> returns a list that has the name.
\<close>

theorem store_then_get:
  assumes ok: "store_credential m name blob t0 t1 t2 = Inr (True, m')"
  shows "get_credential m' name = Inr (blob, m'\<lparr>operation_count := operation_count m' + 1\<rparr>) \<and>
         (case list_credentials m' of Inl e \<Rightarrow> False | Inr names \<Rightarrow> name \<in> set names)"
proof -
  from ok have init: "initialized m"
    by (auto simp: store_credential_def split: if_splits)
  from ok init obtain c where cache: "credentials_cache_manager m = Some c"
    by (auto simp: store_credential_def split: option.splits)
  from ok init cache obtain d where d: "cache_get c name (JObj []) = JObj d"
    by (auto simp: store_credential_def split: json.splits)
  from ok store_credential_result [OF init cache d, of blob t0 t1 t2]
  have m': "m' = m\<lparr>credentials_cache_manager := Some
               (c\<lparr>cache_data := AList.update name
                     (JObj [(''credential'', blob),
                            (''state'', dict_get d ''state'' (get_default_state t1)),
                            (''stats'', dict_get d ''stats'' get_default_stats)])
                     (cache_data c),
                   dirty := True\<rparr>),
            operation_count := operation_count m + 1,
            operation_times := deque_append (operation_times m) (t2 - t0)\<rparr>"
    by simp
  have "name \<in> fst ` set (AList.update name
                     (JObj [(''credential'', blob),
                            (''state'', dict_get d ''state'' (get_default_state t1)),
                            (''stats'', dict_get d ''stats'' get_default_stats)])
                     (cache_data c))"
    by (simp add: dom_update)
  with init show ?thesis
    by (simp add: m' get_credential_def list_credentials_def cache_get_def cache_get_all_def
        update_conv' Let_def)
qed

theorem store_then_get_witness:
  "store_credential mgr0 ''b.json'' blob0 10 11 12 = Inr (True, mgr1) \<and>
   get_credential mgr1 ''b.json'' = Inr (blob0, mgr1\<lparr>operation_count := operation_count mgr1 + 1\<rparr>) \<and>
   list_credentials mgr1 = Inr [''a.json'', ''b.json'']"
proof -
  have run: "store_credential mgr0 ''b.json'' blob0 10 11 12 = Inr (True, mgr1)"
    by (simp add: store_credential_def mgr0_def mgr1_def cache_get_def cache_set_def Let_def
        dict_get_def deque_append_def)
  have names: "list_credentials mgr1 = Inr [''a.json'', ''b.json'']"
    by (simp add: list_credentials_def mgr1_def cache_get_all_def)
  from store_then_get [OF run] run names show ?thesis by simp
qed

section \<open>The status listing shows no secret\<close>

lemma without_secret_state:
  assumes "without_secret v = without_secret w"
  shows "(case v of JObj d \<Rightarrow> Some (dict_get d ''state'' dflt) | _ \<Rightarrow> None) =
         (case w of JObj d \<Rightarrow> Some (dict_get d ''state'' dflt) | _ \<Rightarrow> None)"
proof (cases v)
  case (JObj d)
  with assms obtain e where w: "w = JObj e"
    and eq: "AList.delete ''credential'' d = AList.delete ''credential'' e"
    by (cases w) (auto simp: without_secret_def)
  have "map_of (AList.delete ''credential'' d) ''state'' = map_of d ''state''"
    and "map_of (AList.delete ''credential'' e) ''state'' = map_of e ''state''"
    by simp_all
  with eq have "map_of d ''state'' = map_of e ''state''" by simp
  with JObj w show ?thesis by (simp add: dict_get_def)
next
  case JNull
  with assms show ?thesis by (cases w) (auto simp: without_secret_def)
next
  case (JBool x)
  with assms show ?thesis by (cases w) (auto simp: without_secret_def)
next
  case (JNum x)
  with assms show ?thesis by (cases w) (auto simp: without_secret_def)
next
  case (JStr x)
  with assms show ?thesis by (cases w) (auto simp: without_secret_def)
next
  case (JList x)
  with assms show ?thesis by (cases w) (auto simp: without_secret_def)
qed

lemma states_from_step:
  "states_from clock i ((fn, data) # rest) =
     (case (case data of JObj d \<Rightarrow> Some (dict_get d ''state'' (get_default_state (clock i)))
                       | _ \<Rightarrow> None) of
        None \<Rightarrow> None
      | Some s \<Rightarrow> map_option ((#) (fn, s)) (states_from clock (Suc i) rest))"
  by (cases data) (simp_all split: option.splits)

lemma states_from_health:
  "map (\<lambda>x. (fst x, without_secret (snd x))) xs = map (\<lambda>x. (fst x, without_secret (snd x))) ys \<Longrightarrow>
   states_from clock i xs = states_from clock i ys"
proof (induction xs arbitrary: ys i)
  case Nil
  then show ?case by simp
next
  case (Cons x xs)
  then obtain y ys' where ys: "ys = y # ys'" by (cases ys) auto
  with Cons.prems have k: "fst x = fst y" and w: "without_secret (snd x) = without_secret (snd y)"
    and rest: "map (\<lambda>x. (fst x, without_secret (snd x))) xs =
               map (\<lambda>x. (fst x, without_secret (snd x))) ys'"
    by simp_all
  from rest have ih: "states_from clock (Suc i) xs = states_from clock (Suc i) ys'"
    by (rule Cons.IH)
  obtain fn data where x: "x = (fn, data)" by (cases x)
  obtain fn' data' where y: "y = (fn', data')" by (cases y)
  from k x y have fn: "fn' = fn" by simp
  from w x y have "without_secret data = without_secret data'" by simp
  then have st: "(case data' of JObj d \<Rightarrow> Some (dict_get d ''state'' (get_default_state (clock i)))
                              | _ \<Rightarrow> None) =
      (case data of JObj d \<Rightarrow> Some (dict_get d ''state'' (get_default_state (clock i)))
                  | _ \<Rightarrow> None)"
    by (rule without_secret_state [symmetric])
  have "states_from clock i ((fn', data') # ys') = states_from clock i ((fn, data) # xs)"
    unfolding states_from_step st fn ih ..
  then show ?case
    unfolding ys x y ..
qed

text \<open>
  C8. \<^verbatim>\<open>get_all_credential_states\<close> depends on the health of the records only: two
  managers whose credential tables are the same once every record's \<^verbatim>\<open>credential\<close>
  field is taken out (same names in the same order, same states and stats) give the
  same result, read with the same clock. In particular the result does not change when
  a record's secret is replaced by another.
\<close>

theorem states_hide_secrets:
  assumes "initialized m = initialized m'" and "health_view m = health_view m'"
    and "credentials_cache_manager m = None \<longleftrightarrow> credentials_cache_manager m' = None"
  shows "get_all_credential_states m clock = get_all_credential_states m' clock"
proof (cases "credentials_cache_manager m")
  case None
  with assms show ?thesis
    by (simp add: get_all_credential_states_def)
next
  case (Some c)
  with assms(3) obtain c' where c': "credentials_cache_manager m' = Some c'" by auto
  from assms(2) Some c' have "map (\<lambda>x. (fst x, without_secret (snd x))) (cache_data c) =
      map (\<lambda>x. (fst x, without_secret (snd x))) (cache_data c')"
    by (simp add: health_view_def entries_def)
  then have "states_from clock 0 (cache_data c) = states_from clock 0 (cache_data c')"
    by (rule states_from_health)
  with assms(1) Some c' show ?thesis
    by (simp add: get_all_credential_states_def cache_get_all_def)
qed

lemma replace_secret_view: "health_view (replace_secret name blob m) = health_view m"
proof (cases "credentials_cache_manager m")
  case None
  then show ?thesis by (simp add: replace_secret_def)
next
  case (Some c)
  have "without_secret (case v of JObj d \<Rightarrow> JObj (AList.update ''credential'' blob d) | v \<Rightarrow> v) =
      without_secret v" for v
    by (cases v) (simp_all add: without_secret_def delete_update_same)
  with Some show ?thesis
    by (simp add: replace_secret_def health_view_def entries_def)
qed

theorem states_hide_secrets_witness:
  "health_view (replace_secret ''a.json'' blob0 mgr0) = health_view mgr0 \<and>
   get_all_credential_states (replace_secret ''a.json'' blob0 mgr0) (\<lambda>i. 100) =
     get_all_credential_states mgr0 (\<lambda>i. 100) \<and>
   get_all_credential_states mgr0 (\<lambda>i. 100) = Inr [(''a.json'', state0)] \<and>
   entry_field (replace_secret ''a.json'' blob0 mgr0) ''a.json'' ''credential'' = Some blob0 \<and>
   entry_field mgr0 ''a.json'' ''credential'' = Some (JObj [(''token'', JStr ''old-token'')])"
proof -
  have i: "initialized (replace_secret ''a.json'' blob0 mgr0) = initialized mgr0"
    by (simp add: replace_secret_def mgr0_def)
  have v: "health_view (replace_secret ''a.json'' blob0 mgr0) = health_view mgr0"
    by (rule replace_secret_view)
  have n: "credentials_cache_manager (replace_secret ''a.json'' blob0 mgr0) = None \<longleftrightarrow>
      credentials_cache_manager mgr0 = None"
    by (simp add: replace_secret_def mgr0_def)
  have r: "get_all_credential_states mgr0 (\<lambda>i. 100) = Inr [(''a.json'', state0)]"
    by (simp add: get_all_credential_states_def mgr0_def cache_get_all_def dict_get_def)
  have s: "entry_field (replace_secret ''a.json'' blob0 mgr0) ''a.json'' ''credential'' = Some blob0"
    "entry_field mgr0 ''a.json'' ''credential'' = Some (JObj [(''token'', JStr ''old-token'')])"
    by (simp_all add: entry_field_def replace_secret_def mgr0_def)
  from states_hide_secrets [OF i v n, of "\<lambda>i. 100"] v r s show ?thesis by simp
qed

section \<open>Loading from a failing store\<close>

text \<open>
  C9. \<^verbatim>\<open>load_data\<close> returns the empty dictionary when acquiring the connection,
  executing the query or fetching the row raises, when there is no row, when the row
  is empty, when its first column is \<^verbatim>\<open>NULL\<close> or of an unexpected type, and when the
  column is text that \<^verbatim>\<open>json.loads\<close> rejects. It has no other way out than a value.
\<close>

theorem load_data_empty_on_failure:
  "load_data json_loads (AcquireFails e) = JObj [] \<and>
   load_data json_loads (ExecuteFails e) = JObj [] \<and>
   load_data json_loads (FetchFails e) = JObj [] \<and>
   load_data json_loads (Fetched None) = JObj [] \<and>
   load_data json_loads (Fetched (Some [])) = JObj [] \<and>
   load_data json_loads (Fetched (Some (DbNull # rest))) = JObj [] \<and>
   load_data json_loads (Fetched (Some (DbOther # rest))) = JObj [] \<and>
   (json_loads s = Inl e \<longrightarrow> load_data json_loads (Fetched (Some (DbStr s # rest))) = JObj [])"
  by (simp add: load_data_def)

theorem load_data_empty_on_failure_witness:
  "load_data (\<lambda>s. Inl (Exn ''Expecting value'')) (AcquireFails (Exn ''Expecting value'')) =
     JObj [] \<and>
   load_data (\<lambda>s. Inl (Exn ''Expecting value'')) (Fetched None) = JObj [] \<and>
   load_data (\<lambda>s. Inl (Exn ''Expecting value'')) (Fetched (Some [DbNull])) = JObj [] \<and>
   load_data (\<lambda>s. Inl (Exn ''Expecting value'')) (Fetched (Some [DbStr ''{''])) = JObj []"
proof -
  have "(\<lambda>s. Inl (Exn ''Expecting value'') :: exn + json) ''{'' = Inl (Exn ''Expecting value'')"
    by simp
  with load_data_empty_on_failure
    [of "\<lambda>s. Inl (Exn ''Expecting value'')" "Exn ''Expecting value''" "[]" "''{''"]
  show ?thesis by simp
qed

section \<open>The login route\<close>

lemma login_results:
  "login db u p now = Inr v \<Longrightarrow>
   v = JNull \<or> (\<exists>uid role key. v = JObj [(''token'', JStr (token_urlsafe db)), (''user_id'', uid),
                                          (''role'', role), (''api_key'', key)])"
  by (auto simp: login_def split: sum.splits option.splits if_splits)

text \<open>
  C10. \<^verbatim>\<open>POST /auth/login\<close> never returns a token response. \<^verbatim>\<open>UserManager.login\<close>
  raises, returns \<^verbatim>\<open>None\<close> or returns the dictionary with the four keys \<^verbatim>\<open>token\<close>,
  \<^verbatim>\<open>user_id\<close>, \<^verbatim>\<open>role\<close>, \<^verbatim>\<open>api_key\<close>; the route unpacks the result into three
  variables, which raises \<^verbatim>\<open>TypeError\<close> on \<^verbatim>\<open>None\<close> and \<^verbatim>\<open>ValueError\<close> on the
  dictionary; an exception of \<^verbatim>\<open>login\<close> goes through.
\<close>

theorem login_route_always_raises:
  "isl (login_route db u p now) \<and>
   (case login db u p now of
      Inl e \<Rightarrow> login_route db u p now = Inl e
    | Inr v \<Rightarrow>
        (v = JNull \<and> login_route db u p now = Inl TypeError) \<or>
        ((\<exists>uid role key. v = JObj [(''token'', JStr (token_urlsafe db)), (''user_id'', uid),
                                    (''role'', role), (''api_key'', key)]) \<and>
         login_route db u p now = Inl ValueError))"
proof (cases "login db u p now")
  case (Inl e)
  then show ?thesis by (simp add: login_route_def)
next
  case (Inr v)
  from login_results [OF Inr] show ?thesis
  proof
    assume "v = JNull"
    with Inr show ?thesis by (simp add: login_route_def)
  next
    assume "\<exists>uid role key. v = JObj [(''token'', JStr (token_urlsafe db)), (''user_id'', uid),
                                      (''role'', role), (''api_key'', key)]"
    with Inr show ?thesis by (auto simp: login_route_def)
  qed
qed

theorem login_route_always_raises_witness:
  "login db0 ''admin'' ''admin'' 0 =
     Inr (JObj [(''token'', JStr ''tok''), (''user_id'', JStr ''u1''), (''role'', JStr ''admin''),
                (''api_key'', JStr ''sk-gcli-1'')]) \<and>
   login_route db0 ''admin'' ''admin'' 0 = Inl ValueError \<and>
   login db0 ''admin'' ''wrong'' 0 = Inr JNull \<and>
   login_route db0 ''admin'' ''wrong'' 0 = Inl TypeError"
proof -
  have good: "login db0 ''admin'' ''admin'' 0 =
     Inr (JObj [(''token'', JStr ''tok''), (''user_id'', JStr ''u1''), (''role'', JStr ''admin''),
                (''api_key'', JStr ''sk-gcli-1'')])"
    by (simp add: login_def db0_def subscript_def)
  have bad: "login db0 ''admin'' ''wrong'' 0 = Inr JNull"
    by (simp add: login_def db0_def)
  from login_route_always_raises [of db0 "''admin''" "''admin''" 0] good
  have 1: "login_route db0 ''admin'' ''admin'' 0 = Inl ValueError" by simp
  from login_route_always_raises [of db0 "''admin''" "''wrong''" 0] bad
  have 2: "login_route db0 ''admin'' ''wrong'' 0 = Inl TypeError" by simp
  from good bad 1 2 show ?thesis by simp
qed

end
